theory Spec2Isabelle
  imports Complex_Main
begin

section \<open>Python values, exceptions and library functions used by the module\<close>

text \<open>
  The module under study is \<^verbatim>\<open>modules/full/smart_home_devices_helper.py\<close>. Its functions
  are embedded as HOL functions. An exception raised by the Python code is a value
  \<open>Inl e\<close> of a sum type; a function that mutates \<^verbatim>\<open>self\<close> takes the object and returns
  the updated one next to its result, so that a mutation made before an exception is kept.
\<close>

datatype error = KeyError | TypeError | IndexError | ValueError | ZeroDivisionError

text \<open>An RGB triple is a Python tuple of three (unbounded) integers.\<close>

type_synonym colour = "int \<times> int \<times> int"

text \<open>A device description is a \<^verbatim>\<open>Dict[str, str]\<close>; \<^verbatim>\<open>d[k]\<close> raises KeyError on a missing key.\<close>

type_synonym dict = "string \<rightharpoonup> string"

definition getitem :: "dict \<Rightarrow> string \<Rightarrow> error + string" where
  "getitem d k = (case d k of None \<Rightarrow> Inl KeyError | Some v \<Rightarrow> Inr v)"

text \<open>
  Indexing a Python list of length \<open>n\<close> with the integer \<open>i\<close>: the indices \<open>0\<close> to
  \<open>n - 1\<close> count from the front, \<open>-1\<close> down to \<open>-n\<close> count from the back, and every other
  index raises IndexError. \<open>py_index\<close> gives the position meant, if there is one.
\<close>

definition py_index :: "nat \<Rightarrow> int \<Rightarrow> nat option" where
  "py_index n i =
     (if 0 \<le> i \<and> i < int n then Some (nat i)
      else if i < 0 \<and> - int n \<le> i then Some (nat (int n + i))
      else None)"

text \<open>\<^verbatim>\<open>xs[i]\<close> and \<^verbatim>\<open>xs[i] = v\<close>.\<close>

definition list_getitem :: "'a list \<Rightarrow> int \<Rightarrow> error + 'a" where
  "list_getitem xs i =
     (case py_index (length xs) i of None \<Rightarrow> Inl IndexError | Some k \<Rightarrow> Inr (xs ! k))"

definition list_setitem :: "'a list \<Rightarrow> int \<Rightarrow> 'a \<Rightarrow> error + 'a list" where
  "list_setitem xs i v =
     (case py_index (length xs) i of None \<Rightarrow> Inl IndexError | Some k \<Rightarrow> Inr (xs[k := v]))"

text \<open>\<^verbatim>\<open>xs.index(x)\<close>: the position of the first element equal to \<open>x\<close>, ValueError if none.\<close>

fun list_index :: "'a list \<Rightarrow> 'a \<Rightarrow> error + int" where
  "list_index [] x = Inl ValueError"
| "list_index (y # ys) x =
     (if y = x then Inr 0
      else (case list_index ys x of Inl e \<Rightarrow> Inl e | Inr i \<Rightarrow> Inr (i + 1)))"

text \<open>\<^verbatim>\<open>sep.join(parts)\<close>.\<close>

fun join :: "string \<Rightarrow> string list \<Rightarrow> string" where
  "join sep [] = []"
| "join sep [p] = p"
| "join sep (p # q # ps) = p @ sep @ join sep (q # ps)"

text \<open>
  \<^verbatim>\<open>s.lower()\<close> maps a string to its lower-case form by the case tables of the Unicode
  character database. The tables belong to the Python runtime and not to the module, so the
  functions of the module that call \<^verbatim>\<open>lower()\<close> take the mapping as a parameter
  \<open>lower :: string \<Rightarrow> string\<close>, and what is proved about them holds for every such
  mapping. Two instances serve for concrete runs. A \<open>string\<close> holds the UTF-8 bytes of
  the text.

  \<open>ascii_lower\<close> is \<^verbatim>\<open>lower()\<close> on ASCII text: \<open>A\<close> to \<open>Z\<close> become \<open>a\<close> to \<open>z\<close>.
  \<open>latin1_lower\<close> is \<^verbatim>\<open>lower()\<close> on text whose letters lie in ASCII or in the Latin-1
  Supplement: the capitals U+00C0 to U+00DE without U+00D7 are the byte 0xC3 followed by a
  byte from 0x80 to 0x9E without 0x97, and their lower-case letters have the second byte
  higher by 0x20.
\<close>

definition ascii_lower_char :: "char \<Rightarrow> char" where
  "ascii_lower_char c =
     (let k = (of_char c :: nat) in if 65 \<le> k \<and> k \<le> 90 then char_of (k + 32) else c)"

definition ascii_lower :: "string \<Rightarrow> string" where
  "ascii_lower s = map ascii_lower_char s"

fun latin1_lower :: "string \<Rightarrow> string" where
  "latin1_lower [] = []"
| "latin1_lower [c] = [ascii_lower_char c]"
| "latin1_lower (c # d # cs) =
     (if c = CHR 0xC3 \<and> 128 \<le> (of_char d :: nat) \<and> (of_char d :: nat) \<le> 158
         \<and> (of_char d :: nat) \<noteq> 151
      then c # char_of ((of_char d :: nat) + 32) # latin1_lower cs
      else ascii_lower_char c # latin1_lower (d # cs))"

subsection \<open>Hexadecimal text\<close>

definition is_hex_digit :: "char \<Rightarrow> bool" where
  "is_hex_digit c \<longleftrightarrow> c \<in> set ''0123456789abcdefABCDEF''"

definition digit_val :: "char \<Rightarrow> int" where
  "digit_val c =
     (let k = (of_char c :: int) in
      if 48 \<le> k \<and> k \<le> 57 then k - 48
      else if 65 \<le> k \<and> k \<le> 70 then k - 55
      else k - 87)"

text \<open>
  \<^verbatim>\<open>int(s, 16)\<close> on a string of hexadecimal digits; ValueError on the empty string and on
  any other character. (Python also accepts a sign, surrounding blanks, a \<^verbatim>\<open>0x\<close> prefix
  and underscores between digits; the module only passes slices of a validated colour
  string, and those forms are not modelled.)
\<close>

definition int16 :: "string \<Rightarrow> error + int" where
  "int16 s =
     (if s \<noteq> [] \<and> list_all is_hex_digit s
      then Inr (foldl (\<lambda>a c. 16 * a + digit_val c) 0 s)
      else Inl ValueError)"

definition hex_char :: "nat \<Rightarrow> char" where
  "hex_char d = ''0123456789ABCDEF'' ! d"

text \<open>The upper-case hexadecimal digits of a natural number, at least one digit.\<close>

function hex_digits :: "nat \<Rightarrow> string" where
  "hex_digits n = (if n < 16 then [hex_char n] else hex_digits (n div 16) @ [hex_char (n mod 16)])"
  by pat_completeness auto
termination
  by (relation "measure id") auto

declare hex_digits.simps [simp del]

text \<open>
  \<^verbatim>\<open>format(n, '02X')\<close> for an integer: upper-case hexadecimal digits, a minus sign for a
  negative number, padded with zeros after the sign to a width of two characters.
\<close>

definition format_02X_int :: "int \<Rightarrow> string" where
  "format_02X_int n =
     (if n < 0 then CHR ''-'' # hex_digits (nat (- n))
      else (let s = hex_digits (nat n) in if length s < 2 then CHR ''0'' # s else s))"

text \<open>
  The values that reach \<^verbatim>\<open>str.format\<close> in this module: an integer, a tuple, or None.
  \<^verbatim>\<open>format(v, '02X')\<close> raises TypeError for a tuple and for None.
\<close>

datatype pyval = PyInt int | PyTuple "pyval list" | PyNone

fun format_02X :: "pyval \<Rightarrow> error + string" where
  "format_02X (PyInt n) = Inr (format_02X_int n)"
| "format_02X (PyTuple vs) = Inl TypeError"
| "format_02X PyNone = Inl TypeError"

text \<open>
  One automatically numbered replacement field \<^verbatim>\<open>{:02X}\<close>: field \<open>k\<close> formats the
  \<open>k\<close>-th positional argument and raises IndexError when there is none.
\<close>

definition format_field :: "pyval list \<Rightarrow> nat \<Rightarrow> error + string" where
  "format_field args k = (if k < length args then format_02X (args ! k) else Inl IndexError)"

text \<open>\<^verbatim>\<open>'#{:02X}{:02X}{:02X}'.format(*args)\<close>; the fields are formatted from left to right.\<close>

definition format_hex_colour :: "pyval list \<Rightarrow> error + string" where
  "format_hex_colour args =
     (case format_field args 0 of Inl e \<Rightarrow> Inl e | Inr s0 \<Rightarrow>
      (case format_field args 1 of Inl e \<Rightarrow> Inl e | Inr s1 \<Rightarrow>
       (case format_field args 2 of Inl e \<Rightarrow> Inl e | Inr s2 \<Rightarrow>
          Inr (CHR ''#'' # s0 @ s1 @ s2))))"

definition tuple_args :: "colour \<Rightarrow> pyval list" where
  "tuple_args c = (case c of (r, g, b) \<Rightarrow> [PyInt r, PyInt g, PyInt b])"

text \<open>\<^verbatim>\<open>int(x)\<close> on a float: truncation towards zero.\<close>

definition py_int :: "real \<Rightarrow> int" where
  "py_int x = (if 0 \<le> x then \<lfloor>x\<rfloor> else \<lceil>x\<rceil>)"

section \<open>Colour conversions of \<^verbatim>\<open>LightManager\<close>\<close>

text \<open>
  \<^verbatim>\<open>is_valid_hex_color\<close>: \<^verbatim>\<open>re.match("^#[0-9a-fA-F]{6}$", s)\<close>. Without the MULTILINE flag
  \<^verbatim>\<open>$\<close> matches at the end of the string and also just before a newline that is the
  last character of the string.
\<close>

definition is_valid_hex_color :: "string \<Rightarrow> bool" where
  "is_valid_hex_color s \<longleftrightarrow>
     (case s of
        [] \<Rightarrow> False
      | c # cs \<Rightarrow> c = CHR ''#'' \<and> length cs \<ge> 6 \<and> list_all is_hex_digit (take 6 cs)
                 \<and> (drop 6 cs = [] \<or> drop 6 cs = [CHR 0x0A]))"

text \<open>\<^verbatim>\<open>s[a:b]\<close> for \<open>0 \<le> a \<le> b\<close>; a slice never raises.\<close>

definition slice :: "string \<Rightarrow> nat \<Rightarrow> nat \<Rightarrow> string" where
  "slice s a b = take (b - a) (drop a s)"

definition convert_from_hex :: "string \<Rightarrow> error + colour" where
  "convert_from_hex hex_color_str =
     (let s = (case hex_color_str of c # cs \<Rightarrow> if c = CHR ''#'' then cs else hex_color_str
                                     | [] \<Rightarrow> hex_color_str)
      in case int16 (slice s 0 2) of Inl e \<Rightarrow> Inl e | Inr red \<Rightarrow>
         (case int16 (slice s 2 4) of Inl e \<Rightarrow> Inl e | Inr green \<Rightarrow>
          (case int16 (slice s 4 6) of Inl e \<Rightarrow> Inl e | Inr blue \<Rightarrow>
             Inr (red, green, blue))))"

text \<open>
  The colour text of \<^verbatim>\<open>get_colors_json_hex\<close>:
  \<^verbatim>\<open>'#{:02X}{:02X}{:02X}'.format(*color)\<close>, the tuple unpacked into three arguments.
\<close>

definition hex_of_colour :: "colour \<Rightarrow> error + string" where
  "hex_of_colour c = format_hex_colour (tuple_args c)"

text \<open>
  \<^verbatim>\<open>interpolate_color\<close>. The blend factor is a Python float, modelled as a real number;
  for integer channels and the factors 0 and 1 the floating-point operations involved are
  exact, so that the real-number model gives the value the code computes.
\<close>

definition interpolate_color :: "colour \<Rightarrow> colour \<Rightarrow> real \<Rightarrow> colour" where
  "interpolate_color color1 color2 interpolationGrade =
     (case color1 of (r1, g1, b1) \<Rightarrow> case color2 of (r2, g2, b2) \<Rightarrow>
        (let rDist = r2 - r1; gDist = g2 - g1; bDist = b2 - b1
         in (py_int (of_int r1 + interpolationGrade * of_int rDist),
             py_int (of_int g1 + interpolationGrade * of_int gDist),
             py_int (of_int b1 + interpolationGrade * of_int bDist))))"

section \<open>The bulb worker: \<^verbatim>\<open>SmartBulbThread\<close>\<close>

text \<open>
  The condition variable of a worker, as the worker stands to it. \<open>Waiting\<close>: the
  worker is blocked in \<^verbatim>\<open>wait(timeout=0.5)\<close> and has released the lock. \<open>Notified\<close>: a
  \<^verbatim>\<open>notify()\<close> has released it from the wait, and it has not run yet. \<open>Running\<close>: the
  worker is not in a wait (it is connecting, or it holds the lock). \<^verbatim>\<open>notify()\<close> wakes a
  waiting thread and does nothing when no thread waits.
\<close>

datatype waiter = Running | Waiting | Notified

fun notify :: "waiter \<Rightarrow> waiter" where
  "notify Waiting = Notified"
| "notify Notified = Notified"
| "notify Running = Running"

text \<open>
  The fields of the worker that the modelled methods touch. \<open>device\<close> is the record of
  the calls \<^verbatim>\<open>self.device.set_colour(r, g, b, nowait=True)\<close> made so far, oldest first.
\<close>

record SmartBulbThread =
  bulb_param :: dict
  color :: colour
  is_running :: bool
  color_change_condition :: waiter
  device :: "colour list"

definition SmartBulbThread_init :: "dict \<Rightarrow> SmartBulbThread" where
  "SmartBulbThread_init p =
     \<lparr>bulb_param = p, color = (0, 0, 0), is_running = True,
      color_change_condition = Running, device = []\<rparr>"

text \<open>\<^verbatim>\<open>change_color\<close> runs under the lock: it stores the colour and notifies.\<close>

definition change_color :: "colour \<Rightarrow> SmartBulbThread \<Rightarrow> SmartBulbThread" where
  "change_color rgb t =
     t\<lparr>color := rgb, color_change_condition := notify (color_change_condition t)\<rparr>"


text \<open>
  \<^verbatim>\<open>run\<close> up to its first wait. The status colour, decoded by \<^verbatim>\<open>hsv_string_to_rgb\<close>
  from the device's answer, is a parameter: \<open>None\<close> when the answer has no \<^verbatim>\<open>'dps'\<close>.
\<close>

definition run_start :: "colour option \<Rightarrow> SmartBulbThread \<Rightarrow> SmartBulbThread" where
  "run_start status t =
     (let t1 = (case status of None \<Rightarrow> t | Some c \<Rightarrow> t\<lparr>color := c\<rparr>)
      in t1\<lparr>color_change_condition := (if is_running t1 then Waiting else Running)\<rparr>)"


section \<open>The bulb manager: \<^verbatim>\<open>LightManager\<close>\<close>

text \<open>
  The results the manager returns are Python dictionaries:
  \<^verbatim>\<open>{"result": "success", "state": v, "name": n}\<close> is \<open>Result_success v n\<close> and
  \<^verbatim>\<open>{"result": "error", "reason": r, "name": n}\<close> is \<open>Result_error r n\<close>. A method
  that falls off its end returns None: its result is an \<open>option\<close>.
\<close>

datatype 'v response = Result_success 'v string | Result_error string string

fun response_name :: "'v response \<Rightarrow> string" where
  "response_name (Result_success v n) = n"
| "response_name (Result_error r n) = n"

text \<open>
  Floats (\<^verbatim>\<open>rotation_speed\<close>, \<^verbatim>\<open>rotation_update_pause\<close>) are modelled as real numbers.
  The ring holds what \<^verbatim>\<open>get_color\<close> returned, which can be None.
\<close>

record LightManager =
  bulb_params :: "dict list"
  lights_running :: bool
  is_rotation_active :: bool
  rotation_speed :: real
  rotation_update_pause :: real
  rotation_clockwise :: bool
  bulb_colors :: "colour list"
  bulb_rotation_colors :: "colour option list"
  bulb_threads :: "SmartBulbThread list"

definition LightManager_init :: "dict list \<Rightarrow> LightManager" where
  "LightManager_init bulbs =
     \<lparr>bulb_params = bulbs, lights_running = True, is_rotation_active = False,
      rotation_speed = 10, rotation_update_pause = 0.5, rotation_clockwise = True,
      bulb_colors = map (\<lambda>_. (0, 0, 0)) bulbs, bulb_rotation_colors = [],
      bulb_threads = map SmartBulbThread_init bulbs\<rparr>"

text \<open>The list comprehension \<^verbatim>\<open>[b[key] for b in ds]\<close>.\<close>

fun values_of :: "string \<Rightarrow> dict list \<Rightarrow> error + string list" where
  "values_of key [] = Inr []"
| "values_of key (b # bs) =
     (case getitem b key of Inl e \<Rightarrow> Inl e | Inr v \<Rightarrow>
      (case values_of key bs of Inl e \<Rightarrow> Inl e | Inr vs \<Rightarrow> Inr (v # vs)))"

definition get_names :: "LightManager \<Rightarrow> error + string list" where
  "get_names m = values_of ''name'' (bulb_params m)"

text \<open>The loop of \<^verbatim>\<open>find_bulb_index\<close> over the bulbs still to visit.\<close>

fun find_bulb_index_from :: "dict list \<Rightarrow> dict list \<Rightarrow> string \<Rightarrow> error + int" where
  "find_bulb_index_from all [] name = Inr (- 1)"
| "find_bulb_index_from all (bulb # rest) name =
     (case getitem bulb ''name'' of Inl e \<Rightarrow> Inl e | Inr n \<Rightarrow>
        if n = name then list_index all bulb else find_bulb_index_from all rest name)"

definition find_bulb_index :: "LightManager \<Rightarrow> string \<Rightarrow> error + int" where
  "find_bulb_index m name = find_bulb_index_from (bulb_params m) (bulb_params m) name"

text \<open>
  The loop header shared by \<^verbatim>\<open>set_color\<close> and \<^verbatim>\<open>get_color\<close>,
  \<^verbatim>\<open>for bulb_thread in self.bulb_threads: if bulb_thread.bulb_param['name'] == bulb_name\<close>:
  the position of the first worker with that name, \<open>None\<close> when the loop ends without one.
\<close>

fun first_bulb_thread :: "SmartBulbThread list \<Rightarrow> string \<Rightarrow> error + nat option" where
  "first_bulb_thread [] bulb_name = Inr None"
| "first_bulb_thread (t # ts) bulb_name =
     (case getitem (bulb_param t) ''name'' of Inl e \<Rightarrow> Inl e | Inr n \<Rightarrow>
        if n = bulb_name then Inr (Some 0)
        else (case first_bulb_thread ts bulb_name of
                Inl e \<Rightarrow> Inl e | Inr None \<Rightarrow> Inr None | Inr (Some k) \<Rightarrow> Inr (Some (Suc k))))"

definition set_color ::
  "LightManager \<Rightarrow> string \<Rightarrow> colour \<Rightarrow> (error + colour response option) \<times> LightManager" where
  "set_color m bulb_name rgb =
     (case find_bulb_index m bulb_name of Inl e \<Rightarrow> (Inl e, m) | Inr i \<Rightarrow>
        if i = - 1 then
          (case values_of ''Name'' (bulb_params m) of Inl e \<Rightarrow> (Inl e, m) | Inr bulb_names \<Rightarrow>
             (Inr (Some (Result_error
                (''bulb name does not exist, must be one of these: '' @ join '', '' bulb_names)
                bulb_name)), m))
        else
          (case list_setitem (bulb_colors m) i rgb of Inl e \<Rightarrow> (Inl e, m) | Inr cs \<Rightarrow>
             (let m1 = m\<lparr>bulb_colors := cs\<rparr> in
              case first_bulb_thread (bulb_threads m1) bulb_name of
                Inl e \<Rightarrow> (Inl e, m1)
              | Inr None \<Rightarrow> (Inr None, m1)
              | Inr (Some k) \<Rightarrow>
                  (Inr (Some (Result_success rgb bulb_name)),
                   m1\<lparr>bulb_threads := (bulb_threads m1)[k := change_color rgb (bulb_threads m1 ! k)]\<rparr>))))"

definition set_color_hex ::
  "LightManager \<Rightarrow> string \<Rightarrow> string \<Rightarrow> (error + colour response option) \<times> LightManager" where
  "set_color_hex m bulb_name color_string =
     (if \<not> is_valid_hex_color color_string then
        (Inr (Some (Result_error ''color must be hex string like #C0C0C0'' bulb_name)), m)
      else (case convert_from_hex color_string of
              Inl e \<Rightarrow> (Inl e, m)
            | Inr rgb \<Rightarrow> set_color m bulb_name rgb))"

definition get_color :: "LightManager \<Rightarrow> string \<Rightarrow> (error + colour option) \<times> LightManager" where
  "get_color m bulb_name =
     (case first_bulb_thread (bulb_threads m) bulb_name of
        Inl e \<Rightarrow> (Inl e, m)
      | Inr None \<Rightarrow> (Inr None, m)
      | Inr (Some k) \<Rightarrow>
          (case find_bulb_index m bulb_name of Inl e \<Rightarrow> (Inl e, m) | Inr i \<Rightarrow>
           (case list_setitem (bulb_colors m) i (color (bulb_threads m ! k)) of
              Inl e \<Rightarrow> (Inl e, m)
            | Inr cs \<Rightarrow>
                (case list_getitem cs i of
                   Inl e \<Rightarrow> (Inl e, m\<lparr>bulb_colors := cs\<rparr>)
                 | Inr c \<Rightarrow> (Inr (Some c), m\<lparr>bulb_colors := cs\<rparr>)))))"

text \<open>
  \<^verbatim>\<open>get_color_hex\<close>: \<^verbatim>\<open>'#{:02X}{:02X}{:02X}'.format(color)\<close>, where the one argument is
  what \<^verbatim>\<open>get_color\<close> returned: a tuple, or None.
\<close>

fun pyval_of :: "colour option \<Rightarrow> pyval" where
  "pyval_of None = PyNone"
| "pyval_of (Some (r, g, b)) = PyTuple [PyInt r, PyInt g, PyInt b]"

definition get_color_hex :: "LightManager \<Rightarrow> string \<Rightarrow> (error + string) \<times> LightManager" where
  "get_color_hex m bulb_name =
     (case get_color m bulb_name of
        (Inl e, m1) \<Rightarrow> (Inl e, m1)
      | (Inr c, m1) \<Rightarrow> (format_hex_colour [pyval_of c], m1))"

text \<open>
  \<^verbatim>\<open>LightManager.rotate\<close> (the plain name is taken by a list function). The loop appends to \<^verbatim>\<open>self.bulb_rotation_colors\<close>; a method that returns
  nothing yields \<open>None\<close> when it returns and \<open>Some e\<close> when it raises \<open>e\<close>.
\<close>

fun rotate_collect :: "dict list \<Rightarrow> LightManager \<Rightarrow> error option \<times> LightManager" where
  "rotate_collect [] m = (None, m)"
| "rotate_collect (bulb # rest) m =
     (case getitem bulb ''name'' of Inl e \<Rightarrow> (Some e, m) | Inr bulbname \<Rightarrow>
      (case get_color m bulbname of
         (Inl e, m1) \<Rightarrow> (Some e, m1)
       | (Inr c, m1) \<Rightarrow>
           rotate_collect rest (m1\<lparr>bulb_rotation_colors := bulb_rotation_colors m1 @ [c]\<rparr>)))"

definition LightManager_rotate :: "LightManager \<Rightarrow> real \<Rightarrow> real \<Rightarrow> bool \<Rightarrow> error option \<times> LightManager" where
  "LightManager_rotate m speed update_pause clockwise =
     (case rotate_collect (bulb_params m) (m\<lparr>bulb_rotation_colors := []\<rparr>) of
        (Some e, m1) \<Rightarrow> (Some e, m1)
      | (None, m1) \<Rightarrow>
          (None, m1\<lparr>rotation_speed := speed, rotation_update_pause := update_pause,
                     rotation_clockwise := clockwise, is_rotation_active := True\<rparr>))"

text \<open>
  \<^verbatim>\<open>rotation_worker\<close>. Its local variables: \<^verbatim>\<open>cycle\<close>, set to 0 before the loop, and
  \<^verbatim>\<open>original_colors\<close>, which is assigned in the first active pass before it is read (the
  empty list stands for the unassigned variable).
\<close>

record rotation_locals =
  cycle :: real
  original_colors :: "colour option list"

definition rotation_worker_start :: rotation_locals where
  "rotation_worker_start = \<lparr>cycle = 0, original_colors = []\<rparr>"

text \<open>
  The loop \<^verbatim>\<open>for i in range(len(self.bulb_params))\<close> over the indices still to visit.
  \<^verbatim>\<open>interpolate_color\<close> subscripts its arguments, which raises TypeError on None; the
  result of \<^verbatim>\<open>set_color\<close> is dropped.
\<close>

fun rotation_set_colors ::
  "nat list \<Rightarrow> real \<Rightarrow> colour option list \<Rightarrow> LightManager \<Rightarrow> error option \<times> LightManager" where
  "rotation_set_colors [] cycle_percent orig m = (None, m)"
| "rotation_set_colors (i # rest) cycle_percent orig m =
     (let n = int (length (bulb_params m));
          next_idx = (if rotation_clockwise m then (int i + 1) mod n else (int i - 1) mod n)
      in case list_getitem orig (int i) of Inl e \<Rightarrow> (Some e, m) | Inr c1 \<Rightarrow>
         (case list_getitem orig next_idx of Inl e \<Rightarrow> (Some e, m) | Inr c2 \<Rightarrow>
          (case (c1, c2) of
             (Some a, Some b) \<Rightarrow>
               (let new_color = interpolate_color a b cycle_percent
                in case list_getitem (bulb_params m) (int i) of Inl e \<Rightarrow> (Some e, m) | Inr bulb \<Rightarrow>
                   (case getitem bulb ''name'' of Inl e \<Rightarrow> (Some e, m) | Inr bulbname \<Rightarrow>
                    (case set_color m bulbname new_color of
                       (Inl e, m1) \<Rightarrow> (Some e, m1)
                     | (Inr r, m1) \<Rightarrow> rotation_set_colors rest cycle_percent orig m1)))
           | _ \<Rightarrow> (Some TypeError, m))))"

text \<open>The step at the end of a pass: the ring is turned by one position.\<close>

definition turn_ring :: "bool \<Rightarrow> colour option list \<Rightarrow> error + colour option list" where
  "turn_ring clockwise ring =
     (if clockwise then
        (case list_getitem ring 0 of Inl e \<Rightarrow> Inl e
         | Inr first_item \<Rightarrow> Inr (drop 1 ring @ [first_item]))
      else
        (case list_getitem ring (- 1) of Inl e \<Rightarrow> Inl e
         | Inr last_item \<Rightarrow> Inr (last_item # butlast ring)))"

text \<open>
  One pass of the body of \<^verbatim>\<open>while self.is_running\<close> in \<^verbatim>\<open>rotation_worker\<close> (the sleep
  at its end has no effect on the state). A float division by zero raises
  ZeroDivisionError.
\<close>

definition rotation_worker_pass ::
  "LightManager \<times> rotation_locals \<Rightarrow> error option \<times> LightManager \<times> rotation_locals" where
  "rotation_worker_pass s =
     (case s of (m, l) \<Rightarrow>
      if \<not> is_rotation_active m then (None, m, l)
      else
        (let l1 = (if cycle l = 0
                   then l\<lparr>cycle := rotation_speed m, original_colors := bulb_rotation_colors m\<rparr>
                   else l)
         in if rotation_speed m = 0 then (Some ZeroDivisionError, m, l1)
            else
              (let cycle_percent = (rotation_speed m - cycle l1) / rotation_speed m;
                   l2 = l1\<lparr>cycle := cycle l1 - 1\<rparr>
               in case rotation_set_colors [0..<length (bulb_params m)] cycle_percent
                         (original_colors l2) m of
                    (Some e, m1) \<Rightarrow> (Some e, m1, l2)
                  | (None, m1) \<Rightarrow>
                      if cycle l2 = 0 then
                        (case turn_ring (rotation_clockwise m1) (bulb_rotation_colors m1) of
                           Inl e \<Rightarrow> (Some e, m1, l2)
                         | Inr ring \<Rightarrow> (None, m1\<lparr>bulb_rotation_colors := ring\<rparr>, l2))
                      else (None, m1, l2))))"

text \<open>
  The manager and its rotation thread together: a call of \<^verbatim>\<open>rotate\<close> from another thread
  acts on the manager and has no access to the locals of \<^verbatim>\<open>rotation_worker\<close>.
\<close>

definition call_rotate ::
  "real \<Rightarrow> real \<Rightarrow> bool \<Rightarrow> LightManager \<times> rotation_locals
     \<Rightarrow> error option \<times> LightManager \<times> rotation_locals" where
  "call_rotate speed update_pause clockwise s =
     (case s of (m, l) \<Rightarrow>
        (case LightManager_rotate m speed update_pause clockwise of (r, m1) \<Rightarrow> (r, m1, l)))"

section \<open>The outlet worker and manager: \<^verbatim>\<open>OutletDeviceThread\<close>, \<^verbatim>\<open>OutletManager\<close>\<close>

text \<open>
  \<open>outlet_device\<close> is the record of the calls \<^verbatim>\<open>turn_on\<close> (True) and \<^verbatim>\<open>turn_off\<close>
  (False) made on the device so far, oldest first.
\<close>

record OutletDeviceThread =
  outlet_param :: dict
  state :: bool
  outlet_is_running :: bool
  state_change_condition :: waiter
  outlet_device :: "bool list"

definition OutletDeviceThread_init :: "dict \<Rightarrow> OutletDeviceThread" where
  "OutletDeviceThread_init p =
     \<lparr>outlet_param = p, state = False, outlet_is_running = True,
      state_change_condition = Running, outlet_device = []\<rparr>"

definition change_state :: "bool \<Rightarrow> OutletDeviceThread \<Rightarrow> OutletDeviceThread" where
  "change_state on t =
     t\<lparr>state := on, state_change_condition := notify (state_change_condition t)\<rparr>"




record OutletManager =
  manager_outlet_param :: "dict list"
  outlet_threads :: "OutletDeviceThread list"

definition OutletManager_init :: "dict list \<Rightarrow> OutletManager" where
  "OutletManager_init outlets =
     \<lparr>manager_outlet_param = outlets, outlet_threads = map OutletDeviceThread_init outlets\<rparr>"

text \<open>
  The loop of \<^verbatim>\<open>find_outlet_index\<close> over the outlets still to visit. Here and below the
  first argument is the mapping \<^verbatim>\<open>lower()\<close>.
\<close>

fun find_outlet_index_from :: "(string \<Rightarrow> string) \<Rightarrow> dict list \<Rightarrow> dict list \<Rightarrow> string \<Rightarrow> error + int" where
  "find_outlet_index_from lower all [] name = Inr (- 1)"
| "find_outlet_index_from lower all (outlet # rest) name =
     (case getitem outlet ''name'' of Inl e \<Rightarrow> Inl e | Inr n \<Rightarrow>
        if lower n = lower name then list_index all outlet
        else find_outlet_index_from lower all rest name)"

definition find_outlet_index :: "(string \<Rightarrow> string) \<Rightarrow> OutletManager \<Rightarrow> string \<Rightarrow> error + int" where
  "find_outlet_index lower m name =
     find_outlet_index_from lower (manager_outlet_param m) (manager_outlet_param m) name"

text \<open>
  The loop header shared by \<^verbatim>\<open>set_state\<close> and \<^verbatim>\<open>get_state\<close>: the position of the
  first worker whose lower-cased name is the lower-cased \<open>outlet_name\<close>.
\<close>

fun first_outlet_thread ::
  "(string \<Rightarrow> string) \<Rightarrow> OutletDeviceThread list \<Rightarrow> string \<Rightarrow> error + nat option" where
  "first_outlet_thread lower [] outlet_name = Inr None"
| "first_outlet_thread lower (t # ts) outlet_name =
     (case getitem (outlet_param t) ''name'' of Inl e \<Rightarrow> Inl e | Inr n \<Rightarrow>
        if lower n = lower outlet_name then Inr (Some 0)
        else (case first_outlet_thread lower ts outlet_name of
                Inl e \<Rightarrow> Inl e | Inr None \<Rightarrow> Inr None | Inr (Some k) \<Rightarrow> Inr (Some (Suc k))))"

definition set_state ::
  "(string \<Rightarrow> string) \<Rightarrow> OutletManager \<Rightarrow> string \<Rightarrow> bool \<Rightarrow> (error + bool response option) \<times> OutletManager" where
  "set_state lower m outlet_name on =
     (case find_outlet_index lower m outlet_name of Inl e \<Rightarrow> (Inl e, m) | Inr i \<Rightarrow>
        if i = - 1 then (Inr (Some (Result_error ''outlet name not found'' outlet_name)), m)
        else
          (case first_outlet_thread lower (outlet_threads m) outlet_name of
             Inl e \<Rightarrow> (Inl e, m)
           | Inr None \<Rightarrow> (Inr None, m)
           | Inr (Some k) \<Rightarrow>
               (Inr (Some (Result_success on outlet_name)),
                m\<lparr>outlet_threads := (outlet_threads m)[k := change_state on (outlet_threads m ! k)]\<rparr>)))"

definition get_state ::
  "(string \<Rightarrow> string) \<Rightarrow> OutletManager \<Rightarrow> string \<Rightarrow> error + bool response option" where
  "get_state lower m outlet_name =
     (case first_outlet_thread lower (outlet_threads m) outlet_name of
        Inl e \<Rightarrow> Inl e
      | Inr None \<Rightarrow> Inr None
      | Inr (Some k) \<Rightarrow>
          (case find_outlet_index lower m outlet_name of Inl e \<Rightarrow> Inl e | Inr i \<Rightarrow>
             if i = - 1 then Inr (Some (Result_error ''outlet name not found'' outlet_name))
             else Inr (Some (Result_success (state (outlet_threads m ! k)) outlet_name))))"

section \<open>What the constructors establish\<close>

text \<open>
  \<^verbatim>\<open>LightManager.__init__\<close> makes one worker and one cache entry for every bulb
  description, in the order of the descriptions, and no modelled method changes that.
\<close>

definition lights_inv :: "LightManager \<Rightarrow> bool" where
  "lights_inv m \<longleftrightarrow>
     map bulb_param (bulb_threads m) = bulb_params m \<and>
     length (bulb_colors m) = length (bulb_params m)"

definition outlets_inv :: "OutletManager \<Rightarrow> bool" where
  "outlets_inv m \<longleftrightarrow> map outlet_param (outlet_threads m) = manager_outlet_param m"

section \<open>Auxiliary notions for the statements\<close>

text \<open>A channel value of an RGB triple lies between 0 and 255.\<close>

definition channel :: "int \<Rightarrow> bool" where
  "channel x \<longleftrightarrow> 0 \<le> x \<and> x \<le> 255"

definition rgb_triple :: "colour \<Rightarrow> bool" where
  "rgb_triple c = (case c of (r, g, b) \<Rightarrow> channel r \<and> channel g \<and> channel b)"

definition is_upper_hex_digit :: "char \<Rightarrow> bool" where
  "is_upper_hex_digit c \<longleftrightarrow> c \<in> set ''0123456789ABCDEF''"

text \<open>Two colours differ by at most \<open>tol\<close> in every channel.\<close>

definition channels_within :: "int \<Rightarrow> colour \<Rightarrow> colour \<Rightarrow> bool" where
  "channels_within tol c d =
     (case c of (r1, g1, b1) \<Rightarrow> case d of (r2, g2, b2) \<Rightarrow>
        \<bar>r1 - r2\<bar> \<le> tol \<and> \<bar>g1 - g2\<bar> \<le> tol \<and> \<bar>b1 - b2\<bar> \<le> tol)"

text \<open>
  The pattern \<^verbatim>\<open>#[0-9A-Fa-f]{6}\<close> read as a description of the whole string: a \<open>#\<close>
  followed by exactly six hexadecimal digits.
\<close>

definition matches_hex_pattern :: "string \<Rightarrow> bool" where
  "matches_hex_pattern s \<longleftrightarrow>
     (case s of [] \<Rightarrow> False | c # cs \<Rightarrow> c = CHR ''#'' \<and> length cs = 6 \<and> list_all is_hex_digit cs)"

text \<open>The position of the first occurrence of a name in a list of names.\<close>

fun first_pos :: "string list \<Rightarrow> string \<Rightarrow> nat" where
  "first_pos [] name = 0"
| "first_pos (n # ns) name = (if n = name then 0 else Suc (first_pos ns name))"

section \<open>Example devices\<close>

text \<open>Two device descriptions as the configuration gives them, used for concrete runs.\<close>

definition device_A :: dict where
  "device_A = [''name'' \<mapsto> ''A'', ''id'' \<mapsto> ''1'', ''ip'' \<mapsto> ''10.0.0.1'',
               ''key'' \<mapsto> ''k1'', ''version'' \<mapsto> ''3.3'']"

definition device_B :: dict where
  "device_B = [''name'' \<mapsto> ''B'', ''id'' \<mapsto> ''2'', ''ip'' \<mapsto> ''10.0.0.2'',
               ''key'' \<mapsto> ''k2'', ''version'' \<mapsto> ''3.3'']"

text \<open>
  A device named \<open>Ecole\<close> with an acute accent on the capital E (U+00C9, the bytes 0xC3 0x89);
  the lower-case letter is U+00E9, the bytes 0xC3 0xA9.
\<close>

definition device_E :: dict where
  "device_E = [''name'' \<mapsto> CHR 0xC3 # CHR 0x89 # ''cole'', ''id'' \<mapsto> ''3'', ''ip'' \<mapsto> ''10.0.0.3'',
               ''key'' \<mapsto> ''k3'', ''version'' \<mapsto> ''3.3'']"

text \<open>
  A run of the rotation: a manager of the two bulbs whose workers have connected, read
  the colours (255, 0, 0) and (0, 0, 255) from their devices and wait for requests. On it
  \<^verbatim>\<open>rotate(4, 0.5, True)\<close> is called; then the rotation thread makes one pass of its loop.
\<close>

definition lights_AB :: LightManager where
  "lights_AB =
     (LightManager_init [device_A, device_B])
       \<lparr>bulb_threads := [run_start (Some (255, 0, 0)) (SmartBulbThread_init device_A),
                         run_start (Some (0, 0, 255)) (SmartBulbThread_init device_B)]\<rparr>"

definition rotation_started :: "LightManager \<times> rotation_locals" where
  "rotation_started = snd (call_rotate 4 (1 / 2) True (lights_AB, rotation_worker_start))"

definition rotation_after_pass :: "LightManager \<times> rotation_locals" where
  "rotation_after_pass = snd (rotation_worker_pass rotation_started)"

section \<open>Hexadecimal colour text\<close>

lemma hex_char_val: "d < 16 \<Longrightarrow> digit_val (hex_char d) = int d \<and> is_hex_digit (hex_char d)"
proof -
  assume "d < 16"
  then have "d \<in> {0,1,2,3,4,5,6,7,8,9,10,11,12,13,14,15}" by (simp add: numeral_eq_Suc) arith
  then show ?thesis
    by (auto simp: hex_char_def digit_val_def is_hex_digit_def)
qed

lemma hex_char_upper: "d < 16 \<Longrightarrow> is_upper_hex_digit (hex_char d)"
proof -
  assume "d < 16"
  then have "d \<in> {0,1,2,3,4,5,6,7,8,9,10,11,12,13,14,15}" by (simp add: numeral_eq_Suc) arith
  then show ?thesis
    by (auto simp: hex_char_def is_upper_hex_digit_def)
qed

lemma format_02X_byte:
  assumes "channel n"
  shows "format_02X_int n = [hex_char (nat n div 16), hex_char (nat n mod 16)]"
proof (cases "nat n < 16")
  case True
  then show ?thesis using assms
    by (simp add: channel_def format_02X_int_def hex_digits.simps[of "nat n"] hex_char_def)
next
  case False
  moreover have "nat n div 16 < 16" using assms by (auto simp: channel_def)
  ultimately show ?thesis using assms
    by (simp add: channel_def format_02X_int_def hex_digits.simps[of "nat n"] hex_digits.simps[of "nat n div 16"])
qed

lemma int16_byte:
  assumes "channel n"
  shows "int16 (format_02X_int n) = Inr n"
proof -
  have a: "nat n div 16 < 16" "nat n mod 16 < 16" using assms by (auto simp: channel_def)
  have b: "16 * int (nat n div 16) + int (nat n mod 16) = n" using assms by (simp add: channel_def zdiv_int zmod_int)
  show ?thesis using hex_char_val[OF a(1)] hex_char_val[OF a(2)] b
    by (simp add: format_02X_byte[OF assms] int16_def)
qed

lemma format_02X_length: "channel n \<Longrightarrow> length (format_02X_int n) = 2"
  by (simp add: format_02X_byte)

lemma format_02X_upper:
  assumes "channel n" shows "list_all is_upper_hex_digit (format_02X_int n)"
proof -
  have a: "nat n div 16 < 16" "nat n mod 16 < 16" using assms by (auto simp: channel_def)
  show ?thesis using hex_char_upper[OF a(1)] hex_char_upper[OF a(2)]
    by (simp add: format_02X_byte[OF assms])
qed

lemma hex_of_colour_eq:
  "hex_of_colour (r, g, b) = Inr (CHR ''#'' # format_02X_int r @ format_02X_int g @ format_02X_int b)"
  by (simp add: hex_of_colour_def tuple_args_def format_hex_colour_def format_field_def)

lemma convert_from_hex_bytes:
  assumes "length x = 2" "length y = 2" "length z = 2"
  shows "convert_from_hex (CHR ''#'' # x @ y @ z) =
     (case int16 x of Inl e \<Rightarrow> Inl e | Inr red \<Rightarrow>
         (case int16 y of Inl e \<Rightarrow> Inl e | Inr green \<Rightarrow>
          (case int16 z of Inl e \<Rightarrow> Inl e | Inr blue \<Rightarrow>
             Inr (red, green, blue))))"
  using assms by (simp add: convert_from_hex_def slice_def Let_def split: sum.splits)

text \<open>
  Claim C7. For every RGB triple whose channels lie in 0 to 255, the colour text of
  \<^verbatim>\<open>get_colors_json_hex\<close> is a \<open>#\<close> followed by six upper-case hexadecimal digits, two
  for each channel, and \<^verbatim>\<open>convert_from_hex\<close> reads that text back as the same triple.
\<close>

theorem hex_roundtrip:
  assumes "rgb_triple c"
  shows "\<exists>t. hex_of_colour c = Inr (CHR ''#'' # t) \<and> length t = 6 \<and> list_all is_upper_hex_digit t
             \<and> convert_from_hex (CHR ''#'' # t) = Inr c"
proof -
  obtain r g b where c: "c = (r, g, b)" by (cases c)
  from assms c have ch: "channel r" "channel g" "channel b" by (simp_all add: rgb_triple_def)
  let ?t = "format_02X_int r @ format_02X_int g @ format_02X_int b"
  have 1: "hex_of_colour c = Inr (CHR ''#'' # ?t)" by (simp add: c hex_of_colour_eq)
  have 2: "length ?t = 6" using ch by (simp add: format_02X_length)
  have 3: "list_all is_upper_hex_digit ?t"
    using ch by (simp add: format_02X_upper)
  have 4: "convert_from_hex (CHR ''#'' # ?t) = Inr c"
    using ch by (simp add: convert_from_hex_bytes format_02X_length int16_byte c)
  from 1 2 3 4 show ?thesis by blast
qed

lemma hex_example: "hex_of_colour (192, 10, 255) = Inr ''#C00AFF''"
  by code_simp

lemma unhex_example: "convert_from_hex ''#C00AFF'' = Inr (192, 10, 255)"
  by code_simp

theorem hex_roundtrip_witness:
  "rgb_triple (192, 10, 255) \<and> hex_of_colour (192, 10, 255) = Inr ''#C00AFF''
   \<and> convert_from_hex ''#C00AFF'' = Inr (192, 10, 255)"
proof -
  have h: "rgb_triple (192, 10, 255)" by (simp add: rgb_triple_def channel_def)
  from hex_roundtrip[OF h] show ?thesis using h by (simp add: hex_example)
qed

section \<open>Interpolation\<close>

lemma py_int_of_int: "py_int (of_int k) = k"
  by (simp add: py_int_def)

lemma interpolate_color_0: "interpolate_color c1 c2 0 = c1"
  by (cases c1; cases c2) (simp add: interpolate_color_def py_int_of_int)

lemma interpolate_color_1: "interpolate_color c1 c2 1 = c2"
  by (cases c1; cases c2) (simp add: interpolate_color_def py_int_of_int)

lemma channels_within_refl: "0 \<le> tol \<Longrightarrow> channels_within tol c c"
  by (cases c) (simp add: channels_within_def)

text \<open>
  Claim C8. For RGB triples with channels in 0 to 255, \<^verbatim>\<open>interpolate_color\<close> with the
  factor 0 gives the first colour and with the factor 1 gives the second colour; both
  hold exactly, hence also within a tolerance of 1 in every channel.
\<close>

theorem lerp_endpoints:
  assumes "rgb_triple c1" "rgb_triple c2"
  shows "interpolate_color c1 c2 0 = c1 \<and> interpolate_color c1 c2 1 = c2
         \<and> channels_within 1 (interpolate_color c1 c2 0) c1
         \<and> channels_within 1 (interpolate_color c1 c2 1) c2"
  by (simp add: interpolate_color_0 interpolate_color_1 channels_within_refl)

theorem lerp_endpoints_witness:
  "rgb_triple (255, 0, 10) \<and> rgb_triple (0, 0, 255)
   \<and> interpolate_color (255, 0, 10) (0, 0, 255) 0 = (255, 0, 10)
   \<and> interpolate_color (255, 0, 10) (0, 0, 255) 1 = (0, 0, 255)"
  using lerp_endpoints[of "(255, 0, 10)" "(0, 0, 255)"]
  by (simp add: rgb_triple_def channel_def)

section \<open>Coalescing of change requests in the workers\<close>



section \<open>Looking a device up by name\<close>

lemma values_of_length: "values_of key ps = Inr ns \<Longrightarrow> length ns = length ps"
  by (induction ps arbitrary: ns) (auto split: sum.splits)

lemma values_of_nth:
  "values_of key ps = Inr ns \<Longrightarrow> k < length ps \<Longrightarrow> getitem (ps ! k) key = Inr (ns ! k)"
proof (induction ps arbitrary: ns k)
  case Nil
  then show ?case by simp
next
  case (Cons p ps)
  then show ?case by (cases k) (auto split: sum.splits)
qed

lemma list_index_nth:
  "k < length xs \<Longrightarrow> (\<forall>j<k. xs ! j \<noteq> xs ! k) \<Longrightarrow> list_index xs (xs ! k) = Inr (int k)"
proof (induction xs arbitrary: k)
  case Nil
  then show ?case by simp
next
  case (Cons x xs)
  show ?case
  proof (cases k)
    case 0
    then show ?thesis by simp
  next
    case (Suc k')
    from Cons.prems have ne: "x \<noteq> xs ! k'" using Suc by auto
    have "\<forall>j<k'. xs ! j \<noteq> xs ! k'"
    proof (intro allI impI)
      fix j assume "j < k'"
      then have "Suc j < k" using Suc by simp
      with Cons.prems(2) have "(x # xs) ! Suc j \<noteq> (x # xs) ! k" by blast
      then show "xs ! j \<noteq> xs ! k'" using Suc by simp
    qed
    with Cons.IH[of k'] Cons.prems(1) Suc have "list_index xs (xs ! k') = Inr (int k')" by simp
    with ne Suc show ?thesis by simp
  qed
qed

lemma find_bulb_index_from_miss:
  "values_of ''name'' ps = Inr ns \<Longrightarrow> name \<notin> set ns \<Longrightarrow> find_bulb_index_from all ps name = Inr (- 1)"
  by (induction ps arbitrary: ns) (auto split: sum.splits)

lemma find_bulb_index_from_hit:
  "values_of ''name'' ps = Inr ns \<Longrightarrow> name \<in> set ns \<Longrightarrow>
   find_bulb_index_from all ps name = list_index all (ps ! first_pos ns name)"
proof (induction ps arbitrary: ns)
  case Nil
  then show ?case by simp
next
  case (Cons p ps)
  then show ?case by (auto split: sum.splits)
qed

lemma first_pos_less: "name \<in> set ns \<Longrightarrow> first_pos ns name < length ns"
  by (induction ns) auto

lemma first_pos_nth: "name \<in> set ns \<Longrightarrow> ns ! first_pos ns name = name"
  by (induction ns) auto

lemma first_pos_before: "j < first_pos ns name \<Longrightarrow> ns ! j \<noteq> name"
proof (induction ns arbitrary: j)
  case Nil
  then show ?case by simp
next
  case (Cons n ns)
  then show ?case by (cases j) (auto split: if_splits)
qed

lemma find_bulb_index_from_all:
  assumes "values_of ''name'' ps = Inr ns" "name \<in> set ns"
  shows "find_bulb_index_from ps ps name = Inr (int (first_pos ns name))"
proof -
  let ?k = "first_pos ns name"
  have len: "length ns = length ps" using assms(1) by (rule values_of_length)
  have k: "?k < length ps" using first_pos_less[OF assms(2)] len by simp
  have "\<forall>j<?k. ps ! j \<noteq> ps ! ?k"
  proof (intro allI impI)
    fix j assume j: "j < ?k"
    then have "getitem (ps ! j) ''name'' = Inr (ns ! j)" using values_of_nth[OF assms(1)] k by simp
    moreover have "getitem (ps ! ?k) ''name'' = Inr (ns ! ?k)" using values_of_nth[OF assms(1)] k by simp
    moreover have "ns ! j \<noteq> ns ! ?k" using first_pos_before[OF j] first_pos_nth[OF assms(2)] by simp
    ultimately show "ps ! j \<noteq> ps ! ?k" by auto
  qed
  then have "list_index ps (ps ! ?k) = Inr (int ?k)" using list_index_nth k by blast
  then show ?thesis using find_bulb_index_from_hit[OF assms] by simp
qed

lemma first_bulb_thread_miss:
  "values_of ''name'' (map bulb_param ts) = Inr ns \<Longrightarrow> name \<notin> set ns \<Longrightarrow> first_bulb_thread ts name = Inr None"
  by (induction ts arbitrary: ns) (auto split: sum.splits)

lemma first_bulb_thread_hit:
  "values_of ''name'' (map bulb_param ts) = Inr ns \<Longrightarrow> name \<in> set ns \<Longrightarrow>
   first_bulb_thread ts name = Inr (Some (first_pos ns name))"
proof (induction ts arbitrary: ns)
  case Nil
  then show ?case by simp
next
  case (Cons t ts)
  then show ?case by (auto split: sum.splits)
qed

lemma list_index_nonneg: "list_index xs x = Inr i \<Longrightarrow> 0 \<le> i"
  by (induction xs arbitrary: i) (auto split: if_splits sum.splits)

lemma find_bulb_index_miss:
  "get_names m = Inr ns \<Longrightarrow> name \<notin> set ns \<Longrightarrow> find_bulb_index m name = Inr (- 1)"
  by (simp add: get_names_def find_bulb_index_def find_bulb_index_from_miss)

lemma find_bulb_index_hit:
  "get_names m = Inr ns \<Longrightarrow> name \<in> set ns \<Longrightarrow> find_bulb_index m name = Inr (int (first_pos ns name))"
  by (simp add: get_names_def find_bulb_index_def find_bulb_index_from_all)

lemma bulb_thread_miss:
  "lights_inv m \<Longrightarrow> get_names m = Inr ns \<Longrightarrow> name \<notin> set ns \<Longrightarrow>
   first_bulb_thread (bulb_threads m) name = Inr None"
  by (simp add: get_names_def lights_inv_def first_bulb_thread_miss)

lemma bulb_thread_hit:
  "lights_inv m \<Longrightarrow> get_names m = Inr ns \<Longrightarrow> name \<in> set ns \<Longrightarrow>
   first_bulb_thread (bulb_threads m) name = Inr (Some (first_pos ns name))"
  by (simp add: get_names_def lights_inv_def first_bulb_thread_hit)

lemma get_names_length: "get_names m = Inr ns \<Longrightarrow> length ns = length (bulb_params m)"
  by (simp add: get_names_def values_of_length)

lemma list_setitem_nat: "k < length xs \<Longrightarrow> list_setitem xs (int k) v = Inr (xs[k := v])"
  by (simp add: list_setitem_def py_index_def)

lemma list_getitem_nat: "k < length xs \<Longrightarrow> list_getitem xs (int k) = Inr (xs ! k)"
  by (simp add: list_getitem_def py_index_def)

lemma map_update_same: "k < length xs \<Longrightarrow> f y = f (xs ! k) \<Longrightarrow> map f (xs[k := y]) = map f xs"
  by (simp add: map_update list_update_same_conv)

lemma set_color_hit:
  assumes "lights_inv m" "get_names m = Inr ns" "name \<in> set ns"
  shows "set_color m name rgb =
     (Inr (Some (Result_success rgb name)),
      m\<lparr>bulb_colors := (bulb_colors m)[first_pos ns name := rgb],
        bulb_threads := (bulb_threads m)[first_pos ns name :=
           change_color rgb (bulb_threads m ! first_pos ns name)]\<rparr>)"
proof -
  let ?k = "first_pos ns name"
  have k: "?k < length (bulb_colors m)"
    using first_pos_less[OF assms(3)] get_names_length[OF assms(2)] assms(1)
    by (simp add: lights_inv_def)
  have i: "find_bulb_index m name = Inr (int ?k)" using assms by (simp add: find_bulb_index_hit)
  have t: "first_bulb_thread (bulb_threads m) name = Inr (Some ?k)" using assms by (simp add: bulb_thread_hit)
  show ?thesis
    by (simp add: set_color_def i list_setitem_nat[OF k] t)
qed

lemma set_color_miss:
  assumes "get_names m = Inr ns" "name \<notin> set ns"
  shows "set_color m name rgb =
     (case values_of ''Name'' (bulb_params m) of
        Inl e \<Rightarrow> (Inl e, m)
      | Inr bulb_names \<Rightarrow>
          (Inr (Some (Result_error
             (''bulb name does not exist, must be one of these: '' @ join '', '' bulb_names) name)), m))"
  using assms by (simp add: set_color_def find_bulb_index_miss)

lemma get_color_hit:
  assumes "lights_inv m" "get_names m = Inr ns" "name \<in> set ns"
  shows "get_color m name =
     (Inr (Some (color (bulb_threads m ! first_pos ns name))),
      m\<lparr>bulb_colors := (bulb_colors m)[first_pos ns name := color (bulb_threads m ! first_pos ns name)]\<rparr>)"
proof -
  let ?k = "first_pos ns name"
  have k: "?k < length (bulb_colors m)"
    using first_pos_less[OF assms(3)] get_names_length[OF assms(2)] assms(1)
    by (simp add: lights_inv_def)
  have i: "find_bulb_index m name = Inr (int ?k)" using assms by (simp add: find_bulb_index_hit)
  have t: "first_bulb_thread (bulb_threads m) name = Inr (Some ?k)" using assms by (simp add: bulb_thread_hit)
  show ?thesis
    using k by (simp add: get_color_def i list_setitem_nat[OF k] t list_getitem_nat)
qed

lemma get_color_miss:
  "lights_inv m \<Longrightarrow> get_names m = Inr ns \<Longrightarrow> name \<notin> set ns \<Longrightarrow> get_color m name = (Inr None, m)"
  by (simp add: get_color_def bulb_thread_miss)

lemma lights_inv_init: "lights_inv (LightManager_init bulbs)"
  by (simp add: lights_inv_def LightManager_init_def SmartBulbThread_init_def comp_def)

section \<open>Setting and reading a bulb's colour\<close>

lemma names_AB: "get_names (LightManager_init [device_A, device_B]) = Inr [''A'', ''B'']"
  by (simp add: get_names_def LightManager_init_def device_A_def device_B_def getitem_def)

text \<open>
  Claim C4. For a manager as its constructor builds it and a name that one of its bulb
  descriptions carries, \<^verbatim>\<open>set_color\<close> returns the success result with the colour and the
  name; on return the cache entry that \<^verbatim>\<open>find_bulb_index\<close> gives for the name holds the
  colour. The call itself makes no write to any device: it only leaves the colour with the
  worker.
\<close>

theorem set_color_known:
  assumes "lights_inv m" "get_names m = Inr ns" "bulb_name \<in> set ns"
  shows "\<exists>i m'. set_color m bulb_name rgb = (Inr (Some (Result_success rgb bulb_name)), m')
           \<and> find_bulb_index m' bulb_name = Inr i
           \<and> list_getitem (bulb_colors m') i = Inr rgb
           \<and> map device (bulb_threads m') = map device (bulb_threads m)
           \<and> lights_inv m'"
proof -
  let ?k = "first_pos ns bulb_name"
  let ?m = "m\<lparr>bulb_colors := (bulb_colors m)[?k := rgb],
        bulb_threads := (bulb_threads m)[?k := change_color rgb (bulb_threads m ! ?k)]\<rparr>"
  have k: "?k < length (bulb_colors m)" "?k < length (bulb_threads m)"
    using first_pos_less[OF assms(3)] get_names_length[OF assms(2)] assms(1)
    by (auto simp: lights_inv_def dest: arg_cong[where f=length])
  have 1: "set_color m bulb_name rgb = (Inr (Some (Result_success rgb bulb_name)), ?m)"
    using assms by (rule set_color_hit)
  have n: "get_names ?m = Inr ns" using assms(2) by (simp add: get_names_def)
  have 2: "find_bulb_index ?m bulb_name = Inr (int ?k)"
    using n assms(3) by (rule find_bulb_index_hit)
  have 3: "list_getitem (bulb_colors ?m) (int ?k) = Inr rgb"
    using k by (simp add: list_getitem_nat)
  have 4: "map device (bulb_threads ?m) = map device (bulb_threads m)"
    using k by (simp add: map_update_same change_color_def)
  have "map bulb_param (bulb_threads ?m) = map bulb_param (bulb_threads m)"
    using k by (simp add: map_update_same change_color_def)
  then have 5: "lights_inv ?m"
    using assms(1) by (simp add: lights_inv_def)
  show ?thesis using 1 2 3 4 5 by blast
qed

theorem set_color_known_witness:
  "lights_inv (LightManager_init [device_A, device_B])
   \<and> get_names (LightManager_init [device_A, device_B]) = Inr [''A'', ''B'']
   \<and> ''B'' \<in> set [''A'', ''B'']
   \<and> (\<exists>i m'. set_color (LightManager_init [device_A, device_B]) ''B'' (10, 20, 30) =
          (Inr (Some (Result_success (10, 20, 30) ''B'')), m')
        \<and> find_bulb_index m' ''B'' = Inr i
        \<and> list_getitem (bulb_colors m') i = Inr (10, 20, 30)
        \<and> map device (bulb_threads m') = map device (bulb_threads (LightManager_init [device_A, device_B]))
        \<and> lights_inv m')
   \<and> bulb_colors (snd (set_color (LightManager_init [device_A, device_B]) ''B'' (10, 20, 30)))
        = [(0, 0, 0), (10, 20, 30)]"
proof -
  have m: "''B'' \<in> set [''A'', ''B'']" by simp
  have c: "bulb_colors (snd (set_color (LightManager_init [device_A, device_B]) ''B'' (10, 20, 30)))
        = [(0, 0, 0), (10, 20, 30)]"
    by (simp add: set_color_hit[OF lights_inv_init names_AB m]) (simp add: LightManager_init_def)
  show ?thesis
    using set_color_known[OF lights_inv_init names_AB m, of "(10, 20, 30)"] lights_inv_init names_AB c
    by simp
qed

lemma format_hex_colour_single: "format_hex_colour [pyval_of c] = Inl TypeError"
  by (cases c) (auto simp: format_hex_colour_def format_field_def)

text \<open>
  Claim C9. \<^verbatim>\<open>get_color_hex\<close> raises for every manager and every name: the format string
  has three fields and receives one argument, the tuple (or None), whose formatting with
  \<^verbatim>\<open>02X\<close> raises TypeError. When \<^verbatim>\<open>get_color\<close> returns, also with a valid colour of a
  managed bulb, the exception is TypeError.
\<close>

theorem get_color_hex_raises:
  "(\<exists>e. fst (get_color_hex m bulb_name) = Inl e)
   \<and> (\<forall>c. fst (get_color m bulb_name) = Inr c \<longrightarrow> fst (get_color_hex m bulb_name) = Inl TypeError)"
proof -
  obtain r m1 where g: "get_color m bulb_name = (r, m1)" by (cases "get_color m bulb_name")
  show ?thesis
    by (cases r) (simp_all add: get_color_hex_def g format_hex_colour_single)
qed

theorem get_color_hex_raises_witness:
  "fst (get_color (LightManager_init [device_A, device_B]) ''A'') = Inr (Some (0, 0, 0))
   \<and> rgb_triple (0, 0, 0)
   \<and> fst (get_color_hex (LightManager_init [device_A, device_B]) ''A'') = Inl TypeError
   \<and> hex_of_colour (0, 0, 0) = Inr ''#000000''"
proof -
  have m: "''A'' \<in> set [''A'', ''B'']" by simp
  have g: "fst (get_color (LightManager_init [device_A, device_B]) ''A'') = Inr (Some (0, 0, 0))"
    by (simp add: get_color_hit[OF lights_inv_init names_AB m])
       (simp add: LightManager_init_def SmartBulbThread_init_def)
  have h: "hex_of_colour (0, 0, 0) = Inr ''#000000''" by code_simp
  show ?thesis
    using get_color_hex_raises[of "LightManager_init [device_A, device_B]" "''A''"] g h
    by (simp add: rgb_triple_def channel_def)
qed

section \<open>Looking an outlet up by name\<close>

lemma values_of_Cons:
  "values_of key (p # ps) = Inr ns \<Longrightarrow>
   \<exists>n ns'. getitem p key = Inr n \<and> values_of key ps = Inr ns' \<and> ns = n # ns'"
  by (simp split: sum.splits)

lemma find_outlet_index_from_miss:
  "values_of ''name'' ps = Inr ns \<Longrightarrow> lower name \<notin> set (map lower ns) \<Longrightarrow>
   find_outlet_index_from lower all ps name = Inr (- 1)"
proof (induction ps arbitrary: ns)
  case Nil
  then show ?case by simp
next
  case (Cons p ps)
  from values_of_Cons[OF Cons.prems(1)] obtain n ns' where
    p: "getitem p ''name'' = Inr n" and r: "values_of ''name'' ps = Inr ns'" and ns: "ns = n # ns'"
    by blast
  from Cons.prems(2) ns have d: "lower n \<noteq> lower name" and m: "lower name \<notin> set (map lower ns')"
    by auto
  from Cons.IH[OF r m] p d show ?case by simp
qed

lemma find_outlet_index_from_hit:
  "values_of ''name'' ps = Inr ns \<Longrightarrow> lower name \<in> set (map lower ns) \<Longrightarrow>
   find_outlet_index_from lower all ps name = list_index all (ps ! first_pos (map lower ns) (lower name))"
proof (induction ps arbitrary: ns)
  case Nil
  then show ?case by simp
next
  case (Cons p ps)
  from values_of_Cons[OF Cons.prems(1)] obtain n ns' where
    p: "getitem p ''name'' = Inr n" and r: "values_of ''name'' ps = Inr ns'" and ns: "ns = n # ns'"
    by blast
  show ?case
  proof (cases "lower n = lower name")
    case True
    then show ?thesis using p ns by simp
  next
    case False
    with Cons.prems(2) ns have m: "lower name \<in> set (map lower ns')" by auto
    from Cons.IH[OF r m] p False ns show ?thesis by simp
  qed
qed

lemma find_outlet_index_from_all:
  assumes "values_of ''name'' ps = Inr ns" "lower name \<in> set (map lower ns)"
  shows "find_outlet_index_from lower ps ps name = Inr (int (first_pos (map lower ns) (lower name)))"
proof -
  let ?k = "first_pos (map lower ns) (lower name)"
  have len: "length ns = length ps" using assms(1) by (rule values_of_length)
  have k: "?k < length ps" using first_pos_less[OF assms(2)] len by simp
  have "\<forall>j<?k. ps ! j \<noteq> ps ! ?k"
  proof (intro allI impI)
    fix j assume j: "j < ?k"
    then have "getitem (ps ! j) ''name'' = Inr (ns ! j)" using values_of_nth[OF assms(1)] k by simp
    moreover have "getitem (ps ! ?k) ''name'' = Inr (ns ! ?k)" using values_of_nth[OF assms(1)] k by simp
    moreover have "lower (ns ! j) \<noteq> lower (ns ! ?k)"
      using first_pos_before[OF j] first_pos_nth[OF assms(2)] j k len by simp
    ultimately show "ps ! j \<noteq> ps ! ?k" by auto
  qed
  then have "list_index ps (ps ! ?k) = Inr (int ?k)" using list_index_nth k by blast
  then show ?thesis using find_outlet_index_from_hit[OF assms] by simp
qed

lemma first_outlet_thread_miss:
  "values_of ''name'' (map outlet_param ts) = Inr ns \<Longrightarrow> lower name \<notin> set (map lower ns) \<Longrightarrow>
   first_outlet_thread lower ts name = Inr None"
proof (induction ts arbitrary: ns)
  case Nil
  then show ?case by simp
next
  case (Cons t ts)
  from Cons.prems(1) have "values_of ''name'' (outlet_param t # map outlet_param ts) = Inr ns" by simp
  from values_of_Cons[OF this] obtain n ns' where
    p: "getitem (outlet_param t) ''name'' = Inr n"
    and r: "values_of ''name'' (map outlet_param ts) = Inr ns'" and ns: "ns = n # ns'"
    by blast
  from Cons.prems(2) ns have d: "lower n \<noteq> lower name" and m: "lower name \<notin> set (map lower ns')"
    by auto
  from Cons.IH[OF r m] p d show ?case by simp
qed

lemma first_outlet_thread_hit:
  "values_of ''name'' (map outlet_param ts) = Inr ns \<Longrightarrow> lower name \<in> set (map lower ns) \<Longrightarrow>
   first_outlet_thread lower ts name = Inr (Some (first_pos (map lower ns) (lower name)))"
proof (induction ts arbitrary: ns)
  case Nil
  then show ?case by simp
next
  case (Cons t ts)
  from Cons.prems(1) have "values_of ''name'' (outlet_param t # map outlet_param ts) = Inr ns" by simp
  from values_of_Cons[OF this] obtain n ns' where
    p: "getitem (outlet_param t) ''name'' = Inr n"
    and r: "values_of ''name'' (map outlet_param ts) = Inr ns'" and ns: "ns = n # ns'"
    by blast
  show ?case
  proof (cases "lower n = lower name")
    case True
    then show ?thesis using p ns by simp
  next
    case False
    with Cons.prems(2) ns have m: "lower name \<in> set (map lower ns')" by auto
    from Cons.IH[OF r m] p False ns show ?thesis by simp
  qed
qed

lemma set_state_miss:
  assumes "values_of ''name'' (manager_outlet_param om) = Inr os" "lower q \<notin> set (map lower os)"
  shows "set_state lower om q on = (Inr (Some (Result_error ''outlet name not found'' q)), om)"
  using assms by (simp add: set_state_def find_outlet_index_def find_outlet_index_from_miss)

lemma set_state_hit:
  assumes "outlets_inv om" "values_of ''name'' (manager_outlet_param om) = Inr os"
    "lower q \<in> set (map lower os)"
  shows "set_state lower om q on =
     (Inr (Some (Result_success on q)),
      om\<lparr>outlet_threads := (outlet_threads om)[first_pos (map lower os) (lower q) :=
           change_state on (outlet_threads om ! first_pos (map lower os) (lower q))]\<rparr>)"
proof -
  have i: "find_outlet_index lower om q = Inr (int (first_pos (map lower os) (lower q)))"
    using find_outlet_index_from_all[OF assms(2,3)] by (simp add: find_outlet_index_def)
  have t: "first_outlet_thread lower (outlet_threads om) q = Inr (Some (first_pos (map lower os) (lower q)))"
    using assms by (simp add: outlets_inv_def first_outlet_thread_hit)
  show ?thesis by (simp add: set_state_def i t)
qed

lemma get_state_miss:
  assumes "outlets_inv om" "values_of ''name'' (manager_outlet_param om) = Inr os"
    "lower q \<notin> set (map lower os)"
  shows "get_state lower om q = Inr None"
  using assms by (simp add: get_state_def outlets_inv_def first_outlet_thread_miss)

lemma first_outlet_thread_Some:
  "first_outlet_thread lower ts name = Inr (Some k) \<Longrightarrow>
   k < length ts \<and> find_outlet_index_from lower all (map outlet_param ts) name = list_index all (outlet_param (ts ! k))"
proof (induction ts arbitrary: k)
  case Nil
  then show ?case by simp
next
  case (Cons t ts)
  from Cons.prems obtain n where p: "getitem (outlet_param t) ''name'' = Inr n"
    by (cases "getitem (outlet_param t) ''name''") simp_all
  show ?case
  proof (cases "lower n = lower name")
    case True
    with Cons.prems p have "k = 0" by simp
    then show ?thesis using p True by simp
  next
    case False
    with Cons.prems p obtain k' where k: "first_outlet_thread lower ts name = Inr (Some k')" "k = Suc k'"
      by (cases "first_outlet_thread lower ts name") (auto split: option.splits)
    from Cons.IH[OF k(1)] k(2) p False show ?thesis by simp
  qed
qed

lemma list_index_mem: "x \<in> set xs \<Longrightarrow> \<exists>i. list_index xs x = Inr i"
  by (induction xs) auto

lemma get_state_no_error:
  assumes "outlets_inv om"
  shows "get_state lower om q \<noteq> Inr (Some (Result_error r n))"
proof (cases "first_outlet_thread lower (outlet_threads om) q")
  case (Inl e)
  then show ?thesis by (simp add: get_state_def)
next
  case (Inr ko)
  show ?thesis
  proof (cases ko)
    case None
    with Inr show ?thesis by (simp add: get_state_def)
  next
    case (Some k)
    from first_outlet_thread_Some[of lower "outlet_threads om" q k "manager_outlet_param om"] Inr Some
    have k: "k < length (outlet_threads om)"
      and f: "find_outlet_index lower om q = list_index (manager_outlet_param om) (outlet_param (outlet_threads om ! k))"
      using assms by (simp_all add: find_outlet_index_def outlets_inv_def)
    have p: "map outlet_param (outlet_threads om) = manager_outlet_param om"
      using assms by (simp add: outlets_inv_def)
    have kp: "k < length (manager_outlet_param om)"
      using k arg_cong[OF p, of length] by simp
    have "manager_outlet_param om ! k = outlet_param (outlet_threads om ! k)"
      using nth_map[OF k, of outlet_param] by (simp add: p)
    then have "outlet_param (outlet_threads om ! k) \<in> set (manager_outlet_param om)"
      using nth_mem[OF kp] by simp
    then have "\<exists>i. list_index (manager_outlet_param om) (outlet_param (outlet_threads om ! k)) = Inr i"
      by (rule list_index_mem)
    then obtain i where i: "list_index (manager_outlet_param om) (outlet_param (outlet_threads om ! k)) = Inr i" ..
    then have "0 \<le> i" by (rule list_index_nonneg)
    then show ?thesis using Inr Some f i by (simp add: get_state_def)
  qed
qed

lemma outlets_inv_init: "outlets_inv (OutletManager_init outlets)"
  by (simp add: outlets_inv_def OutletManager_init_def OutletDeviceThread_init_def comp_def)

lemma outlet_names_AB:
  "values_of ''name'' (manager_outlet_param (OutletManager_init [device_A, device_B])) = Inr [''A'', ''B'']"
  by (simp add: OutletManager_init_def device_A_def device_B_def getitem_def)

lemma outlet_names_EB:
  "values_of ''name'' (manager_outlet_param (OutletManager_init [device_E, device_B]))
     = Inr [CHR 0xC3 # CHR 0x89 # ''cole'', ''B'']"
  by (simp add: OutletManager_init_def device_E_def device_B_def getitem_def)

lemma lower_examples:
  "ascii_lower ''A'' = ''a'' \<and> ascii_lower ''B'' = ''b'' \<and> ascii_lower ''a'' = ''a''
   \<and> ascii_lower ''C'' = ''c''"
  by code_simp

lemma latin1_lower_examples:
  "latin1_lower (CHR 0xC3 # CHR 0x89 # ''cole'') = CHR 0xC3 # CHR 0xA9 # ''cole''
   \<and> latin1_lower (CHR 0xC3 # CHR 0xA9 # ''cole'') = CHR 0xC3 # CHR 0xA9 # ''cole''
   \<and> latin1_lower ''B'' = ''b''"
  by code_simp

lemma outlet_hit_position:
  assumes "n \<in> set os" "lower q = lower n"
  shows "first_pos (map lower os) (lower q) < length os"
    and "lower (os ! first_pos (map lower os) (lower q)) = lower n"
    and "distinct (map lower os) \<Longrightarrow> os ! first_pos (map lower os) (lower q) = n"
proof -
  let ?k = "first_pos (map lower os) (lower q)"
  have l: "lower q \<in> set (map lower os)" using assms by simp
  show k: "?k < length os" using first_pos_less[OF l] by simp
  have e: "map lower os ! ?k = lower q" using l by (rule first_pos_nth)
  then show "lower (os ! ?k) = lower n" using k assms(2) by simp
  show "os ! ?k = n" if d: "distinct (map lower os)"
  proof -
    from assms(1) obtain j where j: "j < length os" "os ! j = n" by (auto simp: in_set_conv_nth)
    then have eq: "map lower os ! j = map lower os ! ?k" using e assms(2) by simp
    have jl: "j < length (map lower os)" "?k < length (map lower os)" using j(1) k by simp_all
    have "j = ?k" by (rule iffD1[OF nth_eq_iff_index_eq[OF d jl] eq])
    then show ?thesis using j(2) by simp
  qed
qed

section \<open>Names that match no device\<close>

text \<open>
  Claim C10. For managers as their constructors build them: \<^verbatim>\<open>get_color\<close> with a name
  that no bulb description carries returns None and changes nothing, and \<^verbatim>\<open>get_state\<close>
  with a name that matches no outlet description (compared in lower case) returns None;
  neither raises nor returns an error result. Moreover \<^verbatim>\<open>get_state\<close> never returns its
  error result, whatever the name: that branch is entered only after a worker matched,
  and then \<^verbatim>\<open>find_outlet_index\<close> finds the description of that worker.
\<close>

theorem unknown_name_returns_None:
  assumes "lights_inv m" "get_names m = Inr ns" "bulb_name \<notin> set ns"
    and "outlets_inv om" "values_of ''name'' (manager_outlet_param om) = Inr os"
        "lower outlet_name \<notin> set (map lower os)"
  shows "get_color m bulb_name = (Inr None, m) \<and> get_state lower om outlet_name = Inr None
         \<and> (\<forall>q r n. get_state lower om q \<noteq> Inr (Some (Result_error r n)))"
  using assms by (simp add: get_color_miss get_state_miss get_state_no_error)

theorem unknown_name_returns_None_witness:
  "lights_inv (LightManager_init [device_A, device_B])
   \<and> get_names (LightManager_init [device_A, device_B]) = Inr [''A'', ''B'']
   \<and> ''C'' \<notin> set [''A'', ''B'']
   \<and> outlets_inv (OutletManager_init [device_A, device_B])
   \<and> values_of ''name'' (manager_outlet_param (OutletManager_init [device_A, device_B])) = Inr [''A'', ''B'']
   \<and> ascii_lower ''C'' \<notin> set (map ascii_lower [''A'', ''B''])
   \<and> fst (get_color (LightManager_init [device_A, device_B]) ''C'') = Inr None
   \<and> get_state ascii_lower (OutletManager_init [device_A, device_B]) ''C'' = Inr None"
proof -
  have a: "''C'' \<notin> set [''A'', ''B'']" by simp
  have b: "ascii_lower ''C'' \<notin> set (map ascii_lower [''A'', ''B''])" by (simp add: lower_examples)
  show ?thesis
    using unknown_name_returns_None[where lower = ascii_lower,
        OF lights_inv_init names_AB a outlets_inv_init outlet_names_AB b]
      lights_inv_init names_AB outlets_inv_init outlet_names_AB b
    by simp
qed

text \<open>
  Claim C2, as the code has it by design. \<^verbatim>\<open>OutletManager.set_state\<close> with a name that
  matches no outlet description returns, without raising, the error result with the reason
  \<open>outlet name not found\<close> and the offending name; the result lists no valid names, and
  nothing is changed. \<^verbatim>\<open>LightManager.set_color\<close> with a name that no bulb description
  carries changes neither the cache nor any worker and does not return the success result.
\<close>

theorem unknown_name_error:
  assumes "values_of ''name'' (manager_outlet_param om) = Inr os" "lower q \<notin> set (map lower os)"
    and "get_names m = Inr ns" "bulb_name \<notin> set ns"
  shows "set_state lower om q on = (Inr (Some (Result_error ''outlet name not found'' q)), om)
       \<and> snd (set_color m bulb_name rgb) = m
       \<and> (\<forall>v nm. fst (set_color m bulb_name rgb) \<noteq> Inr (Some (Result_success v nm)))"
proof -
  have 1: "set_state lower om q on = (Inr (Some (Result_error ''outlet name not found'' q)), om)"
    using assms(1,2) by (rule set_state_miss)
  have 2: "snd (set_color m bulb_name rgb) = m"
    by (simp add: set_color_miss[OF assms(3,4)] split: sum.splits)
  have 3: "\<forall>v nm. fst (set_color m bulb_name rgb) \<noteq> Inr (Some (Result_success v nm))"
    by (simp add: set_color_miss[OF assms(3,4)] split: sum.splits)
  show ?thesis using 1 2 3 by blast
qed

theorem unknown_name_error_witness:
  "values_of ''name'' (manager_outlet_param (OutletManager_init [device_A, device_B])) = Inr [''A'', ''B'']
   \<and> ascii_lower ''C'' \<notin> set (map ascii_lower [''A'', ''B''])
   \<and> get_names (LightManager_init [device_A, device_B]) = Inr [''A'', ''B'']
   \<and> ''C'' \<notin> set [''A'', ''B'']
   \<and> set_state ascii_lower (OutletManager_init [device_A, device_B]) ''C'' True
        = (Inr (Some (Result_error ''outlet name not found'' ''C'')), OutletManager_init [device_A, device_B])
   \<and> snd (set_color (LightManager_init [device_A, device_B]) ''C'' (1, 2, 3))
        = LightManager_init [device_A, device_B]"
proof -
  have b: "ascii_lower ''C'' \<notin> set (map ascii_lower [''A'', ''B''])" by (simp add: lower_examples)
  have c: "''C'' \<notin> set [''A'', ''B'']" by simp
  show ?thesis
    using unknown_name_error[where lower = ascii_lower, OF outlet_names_AB b names_AB c,
        of True "(1, 2, 3)"]
      outlet_names_AB b names_AB
    by simp
qed

text \<open>
  Claim C2 as stated fails on two descriptions with the usual keys and the unknown name
  \<open>C\<close>: \<^verbatim>\<open>set_color\<close> raises KeyError, since the descriptions have a \<^verbatim>\<open>"name"\<close> entry and
  no \<^verbatim>\<open>"Name"\<close> entry, and the error result of \<^verbatim>\<open>set_state\<close> does not list the valid
  names.
\<close>

theorem unknown_name_counterexample:
  "fst (set_color (LightManager_init [device_A, device_B]) ''C'' (1, 2, 3)) = Inl KeyError
   \<and> fst (set_state ascii_lower (OutletManager_init [device_A, device_B]) ''C'' True)
        = Inr (Some (Result_error ''outlet name not found'' ''C''))"
proof -
  have a: "''C'' \<notin> set [''A'', ''B'']" by simp
  have b: "ascii_lower ''C'' \<notin> set (map ascii_lower [''A'', ''B''])" by (simp add: lower_examples)
  have k: "values_of ''Name'' (bulb_params (LightManager_init [device_A, device_B])) = Inl KeyError"
    by (simp add: LightManager_init_def device_A_def getitem_def)
  show ?thesis
    by (simp add: set_color_miss[OF names_AB a] k set_state_miss[OF outlet_names_AB b])
qed

lemma names_EB:
  "get_names (LightManager_init [device_E, device_B]) = Inr [CHR 0xC3 # CHR 0x89 # ''cole'', ''B'']"
  by (simp add: get_names_def LightManager_init_def device_E_def device_B_def getitem_def)

lemma position_in_pair: "k < length [x, y] \<Longrightarrow> [x, y] ! k = x \<Longrightarrow> x \<noteq> y \<Longrightarrow> k = 0"
  by (cases k) auto

section \<open>Case of letters in names\<close>

text \<open>
  Claim C6. Let \<open>n\<close> be the name of a bulb and of an outlet, and let \<open>q\<close> have the same
  lower-case form as \<open>n\<close>, under whatever mapping \<^verbatim>\<open>lower()\<close> is, without being the name
  of a bulb itself. Then the bulb lookup misses: \<^verbatim>\<open>find_bulb_index\<close> returns -1 and
  \<^verbatim>\<open>set_color\<close> neither succeeds nor changes anything. The outlet lookup hits:
  \<^verbatim>\<open>find_outlet_index\<close> returns the position \<open>k\<close> of an outlet whose name has the
  lower-case form of \<open>n\<close>, which is the outlet named \<open>n\<close> when no two outlets share a
  lower-case form; \<^verbatim>\<open>set_state\<close> returns the success result and hands the state to the
  worker of that outlet and to no other: the worker at \<open>k\<close>, whose description carries
  that name, gets \<^verbatim>\<open>change_state\<close>, so that it holds the new state.
\<close>

theorem lookup_case_asymmetry:
  assumes "get_names m = Inr ns" "n \<in> set ns" "lower q = lower n" "q \<notin> set ns"
    and "outlets_inv om" "values_of ''name'' (manager_outlet_param om) = Inr os" "n \<in> set os"
  shows "find_bulb_index m q = Inr (- 1)
       \<and> snd (set_color m q rgb) = m
       \<and> (\<forall>v nm. fst (set_color m q rgb) \<noteq> Inr (Some (Result_success v nm)))
       \<and> (\<exists>k. k < length os \<and> lower (os ! k) = lower n
              \<and> (distinct (map lower os) \<longrightarrow> os ! k = n)
              \<and> find_outlet_index lower om q = Inr (int k)
              \<and> getitem (outlet_param (outlet_threads om ! k)) ''name'' = Inr (os ! k)
              \<and> set_state lower om q on =
                  (Inr (Some (Result_success on q)),
                   om\<lparr>outlet_threads :=
                        (outlet_threads om)[k := change_state on (outlet_threads om ! k)]\<rparr>)
              \<and> state (outlet_threads (snd (set_state lower om q on)) ! k) = on)"
proof -
  let ?k = "first_pos (map lower os) (lower q)"
  have 1: "find_bulb_index m q = Inr (- 1)" using assms(1,4) by (rule find_bulb_index_miss)
  have 2: "snd (set_color m q rgb) = m"
    by (simp add: set_color_miss[OF assms(1,4)] split: sum.splits)
  have 3: "\<forall>v nm. fst (set_color m q rgb) \<noteq> Inr (Some (Result_success v nm))"
    by (simp add: set_color_miss[OF assms(1,4)] split: sum.splits)
  have l: "lower q \<in> set (map lower os)" using assms(3,7) by simp
  note pos = outlet_hit_position[OF assms(7,3)]
  have p: "map outlet_param (outlet_threads om) = manager_outlet_param om"
    using assms(5) by (simp add: outlets_inv_def)
  have len: "length (manager_outlet_param om) = length os"
    using values_of_length[OF assms(6)] by simp
  have kt: "?k < length (outlet_threads om)"
    using pos(1) len arg_cong[OF p, of length] by simp
  have 4: "find_outlet_index lower om q = Inr (int ?k)"
    using find_outlet_index_from_all[OF assms(6) l] by (simp add: find_outlet_index_def)
  have "getitem (manager_outlet_param om ! ?k) ''name'' = Inr (os ! ?k)"
    using values_of_nth[OF assms(6)] pos(1) len by simp
  moreover have "manager_outlet_param om ! ?k = outlet_param (outlet_threads om ! ?k)"
    using nth_map[OF kt, of outlet_param] by (simp add: p)
  ultimately have 5: "getitem (outlet_param (outlet_threads om ! ?k)) ''name'' = Inr (os ! ?k)"
    by simp
  have 6: "set_state lower om q on =
      (Inr (Some (Result_success on q)),
       om\<lparr>outlet_threads := (outlet_threads om)[?k := change_state on (outlet_threads om ! ?k)]\<rparr>)"
    using assms(5,6) l by (rule set_state_hit)
  have 7: "state (outlet_threads (snd (set_state lower om q on)) ! ?k) = on"
    using kt by (simp add: 6 change_state_def)
  have 8: "distinct (map lower os) \<longrightarrow> os ! ?k = n" using pos(3) by blast
  have "?k < length os \<and> lower (os ! ?k) = lower n
              \<and> (distinct (map lower os) \<longrightarrow> os ! ?k = n)
              \<and> find_outlet_index lower om q = Inr (int ?k)
              \<and> getitem (outlet_param (outlet_threads om ! ?k)) ''name'' = Inr (os ! ?k)
              \<and> set_state lower om q on =
                  (Inr (Some (Result_success on q)),
                   om\<lparr>outlet_threads :=
                        (outlet_threads om)[?k := change_state on (outlet_threads om ! ?k)]\<rparr>)
              \<and> state (outlet_threads (snd (set_state lower om q on)) ! ?k) = on"
    using pos(1,2) 8 4 5 6 7 by (intro conjI)
  then have "\<exists>k. k < length os \<and> lower (os ! k) = lower n
              \<and> (distinct (map lower os) \<longrightarrow> os ! k = n)
              \<and> find_outlet_index lower om q = Inr (int k)
              \<and> getitem (outlet_param (outlet_threads om ! k)) ''name'' = Inr (os ! k)
              \<and> set_state lower om q on =
                  (Inr (Some (Result_success on q)),
                   om\<lparr>outlet_threads :=
                        (outlet_threads om)[k := change_state on (outlet_threads om ! k)]\<rparr>)
              \<and> state (outlet_threads (snd (set_state lower om q on)) ! k) = on"
    by (rule exI)
  with 1 2 3 show ?thesis by (intro conjI)
qed

text \<open>
  Two runs: the names \<open>A\<close> and \<open>a\<close> with the ASCII mapping, and the accented name of
  \<open>device_E\<close> with its lower-case form under the Latin-1 mapping. In both the bulb
  lookup returns -1, the outlet lookup returns position 0, and \<^verbatim>\<open>set_state\<close> changes the
  state held by the worker at position 0 and by no other.
\<close>

theorem lookup_case_asymmetry_witness:
  "(get_names (LightManager_init [device_A, device_B]) = Inr [''A'', ''B'']
   \<and> ''A'' \<in> set [''A'', ''B''] \<and> ascii_lower ''a'' = ascii_lower ''A'' \<and> ''a'' \<notin> set [''A'', ''B'']
   \<and> outlets_inv (OutletManager_init [device_A, device_B])
   \<and> values_of ''name'' (manager_outlet_param (OutletManager_init [device_A, device_B])) = Inr [''A'', ''B'']
   \<and> distinct (map ascii_lower [''A'', ''B''])
   \<and> find_bulb_index (LightManager_init [device_A, device_B]) ''a'' = Inr (- 1)
   \<and> snd (set_color (LightManager_init [device_A, device_B]) ''a'' (1, 2, 3))
        = LightManager_init [device_A, device_B]
   \<and> find_outlet_index ascii_lower (OutletManager_init [device_A, device_B]) ''a'' = Inr 0
   \<and> fst (set_state ascii_lower (OutletManager_init [device_A, device_B]) ''a'' True)
        = Inr (Some (Result_success True ''a''))
   \<and> map state (outlet_threads (OutletManager_init [device_A, device_B])) = [False, False]
   \<and> map state (outlet_threads (snd (set_state ascii_lower
        (OutletManager_init [device_A, device_B]) ''a'' True))) = [True, False])
   \<and> (latin1_lower (CHR 0xC3 # CHR 0xA9 # ''cole'') = latin1_lower (CHR 0xC3 # CHR 0x89 # ''cole'')
   \<and> find_bulb_index (LightManager_init [device_E, device_B]) (CHR 0xC3 # CHR 0xA9 # ''cole'') = Inr (- 1)
   \<and> find_outlet_index latin1_lower (OutletManager_init [device_E, device_B])
        (CHR 0xC3 # CHR 0xA9 # ''cole'') = Inr 0
   \<and> map state (outlet_threads (snd (set_state latin1_lower (OutletManager_init [device_E, device_B])
        (CHR 0xC3 # CHR 0xA9 # ''cole'') True))) = [True, False])"
proof -
  have ascii: "get_names (LightManager_init [device_A, device_B]) = Inr [''A'', ''B'']
   \<and> ''A'' \<in> set [''A'', ''B''] \<and> ascii_lower ''a'' = ascii_lower ''A'' \<and> ''a'' \<notin> set [''A'', ''B'']
   \<and> outlets_inv (OutletManager_init [device_A, device_B])
   \<and> values_of ''name'' (manager_outlet_param (OutletManager_init [device_A, device_B])) = Inr [''A'', ''B'']
   \<and> distinct (map ascii_lower [''A'', ''B''])
   \<and> find_bulb_index (LightManager_init [device_A, device_B]) ''a'' = Inr (- 1)
   \<and> snd (set_color (LightManager_init [device_A, device_B]) ''a'' (1, 2, 3))
        = LightManager_init [device_A, device_B]
   \<and> find_outlet_index ascii_lower (OutletManager_init [device_A, device_B]) ''a'' = Inr 0
   \<and> fst (set_state ascii_lower (OutletManager_init [device_A, device_B]) ''a'' True)
        = Inr (Some (Result_success True ''a''))
   \<and> map state (outlet_threads (OutletManager_init [device_A, device_B])) = [False, False]
   \<and> map state (outlet_threads (snd (set_state ascii_lower
        (OutletManager_init [device_A, device_B]) ''a'' True))) = [True, False]"
  proof -
    let ?m = "LightManager_init [device_A, device_B]"
    let ?om = "OutletManager_init [device_A, device_B]"
    have a: "''A'' \<in> set [''A'', ''B'']" by simp
    have b: "ascii_lower ''a'' = ascii_lower ''A''" by (simp add: lower_examples)
    have c: "''a'' \<notin> set [''A'', ''B'']" by simp
    have d: "distinct (map ascii_lower [''A'', ''B''])" by (simp add: lower_examples)
    from lookup_case_asymmetry[where lower = ascii_lower and rgb = "(1, 2, 3)" and on = True,
        OF names_AB a b c outlets_inv_init outlet_names_AB a]
    obtain k where bulb: "find_bulb_index ?m ''a'' = Inr (- 1)" "snd (set_color ?m ''a'' (1, 2, 3)) = ?m"
      and k: "k < length [''A'', ''B'']"
        "distinct (map ascii_lower [''A'', ''B'']) \<longrightarrow> [''A'', ''B''] ! k = ''A''"
        "find_outlet_index ascii_lower ?om ''a'' = Inr (int k)"
        "set_state ascii_lower ?om ''a'' True =
           (Inr (Some (Result_success True ''a'')),
            ?om\<lparr>outlet_threads := (outlet_threads ?om)[k := change_state True (outlet_threads ?om ! k)]\<rparr>)"
      by blast
    have k0: "k = 0" using position_in_pair[OF k(1)] k(2) d by simp
    have s0: "map state (outlet_threads ?om) = [False, False]"
      by (simp add: OutletManager_init_def OutletDeviceThread_init_def)
    have s1: "map state (outlet_threads (snd (set_state ascii_lower ?om ''a'' True))) = [True, False]"
      by (simp add: k(4) k0) (simp add: OutletManager_init_def OutletDeviceThread_init_def change_state_def)
    show ?thesis
      using names_AB b outlets_inv_init outlet_names_AB d bulb k(3) s0 s1
      by (simp add: k(4) k0)
  qed
  have accented: "latin1_lower (CHR 0xC3 # CHR 0xA9 # ''cole'') = latin1_lower (CHR 0xC3 # CHR 0x89 # ''cole'')
   \<and> find_bulb_index (LightManager_init [device_E, device_B]) (CHR 0xC3 # CHR 0xA9 # ''cole'') = Inr (- 1)
   \<and> find_outlet_index latin1_lower (OutletManager_init [device_E, device_B])
        (CHR 0xC3 # CHR 0xA9 # ''cole'') = Inr 0
   \<and> map state (outlet_threads (snd (set_state latin1_lower (OutletManager_init [device_E, device_B])
        (CHR 0xC3 # CHR 0xA9 # ''cole'') True))) = [True, False]"
  proof -
    let ?E = "CHR 0xC3 # CHR 0x89 # ''cole''"
    let ?e = "CHR 0xC3 # CHR 0xA9 # ''cole''"
    let ?m = "LightManager_init [device_E, device_B]"
    let ?om = "OutletManager_init [device_E, device_B]"
    have a: "?E \<in> set [?E, ''B'']" by simp
    have b: "latin1_lower ?e = latin1_lower ?E" by (simp add: latin1_lower_examples del: latin1_lower.simps)
    have c: "?e \<notin> set [?E, ''B'']" by simp
    have d: "distinct (map latin1_lower [?E, ''B''])" by (simp add: latin1_lower_examples del: latin1_lower.simps)
    from lookup_case_asymmetry[where lower = latin1_lower and rgb = "(1, 2, 3)" and on = True,
        OF names_EB a b c outlets_inv_init outlet_names_EB a]
    obtain k where bulb: "find_bulb_index ?m ?e = Inr (- 1)"
      and k: "k < length [?E, ''B'']"
        "distinct (map latin1_lower [?E, ''B'']) \<longrightarrow> [?E, ''B''] ! k = ?E"
        "find_outlet_index latin1_lower ?om ?e = Inr (int k)"
        "set_state latin1_lower ?om ?e True =
           (Inr (Some (Result_success True ?e)),
            ?om\<lparr>outlet_threads := (outlet_threads ?om)[k := change_state True (outlet_threads ?om ! k)]\<rparr>)"
      by blast
    have k0: "k = 0" using position_in_pair[OF k(1)] k(2) d by simp
    have s1: "map state (outlet_threads (snd (set_state latin1_lower ?om ?e True))) = [True, False]"
      by (simp add: k(4) k0) (simp add: OutletManager_init_def OutletDeviceThread_init_def change_state_def)
    show ?thesis using b bulb k(3) s1 by (simp add: k0)
  qed
  show ?thesis using ascii accented by (rule conjI)
qed

section \<open>Validation of colour text\<close>

lemma set_color_hex_invalid:
  "\<not> is_valid_hex_color s \<Longrightarrow>
   set_color_hex m bulb_name s =
     (Inr (Some (Result_error ''color must be hex string like #C0C0C0'' bulb_name)), m)"
  by (simp add: set_color_hex_def)

lemma is_valid_hex_color_iff:
  "is_valid_hex_color s \<longleftrightarrow>
     matches_hex_pattern s \<or> (\<exists>t. s = t @ [CHR 0x0A] \<and> matches_hex_pattern t)"
proof (cases s)
  case Nil
  then show ?thesis by (simp add: is_valid_hex_color_def matches_hex_pattern_def)
next
  case (Cons c cs)
  show ?thesis
  proof
    assume v: "is_valid_hex_color s"
    then have c: "c = CHR ''#''" and l: "6 \<le> length cs" and h: "list_all is_hex_digit (take 6 cs)"
      and d: "drop 6 cs = [] \<or> drop 6 cs = [CHR 0x0A]"
      using Cons by (simp_all add: is_valid_hex_color_def)
    from d show "matches_hex_pattern s \<or> (\<exists>t. s = t @ [CHR 0x0A] \<and> matches_hex_pattern t)"
    proof
      assume "drop 6 cs = []"
      then have "length cs = 6" "take 6 cs = cs" using l by simp_all
      then show ?thesis using c h Cons by (simp add: matches_hex_pattern_def)
    next
      assume e: "drop 6 cs = [CHR 0x0A]"
      have "take 6 cs @ [CHR 0x0A] = cs" using append_take_drop_id[of 6 cs] by (simp only: e)
      then have "s = (c # take 6 cs) @ [CHR 0x0A]" using Cons by simp
      moreover have "matches_hex_pattern (c # take 6 cs)"
        using c h l by (simp add: matches_hex_pattern_def)
      ultimately show ?thesis by blast
    qed
  next
    assume "matches_hex_pattern s \<or> (\<exists>t. s = t @ [CHR 0x0A] \<and> matches_hex_pattern t)"
    then show "is_valid_hex_color s"
    proof
      assume "matches_hex_pattern s"
      then show ?thesis using Cons by (simp add: matches_hex_pattern_def is_valid_hex_color_def)
    next
      assume "\<exists>t. s = t @ [CHR 0x0A] \<and> matches_hex_pattern t"
      then obtain t where t: "s = t @ [CHR 0x0A]" "matches_hex_pattern t" by blast
      then obtain d ds where "t = d # ds" "d = CHR ''#''" "length ds = 6" "list_all is_hex_digit ds"
        by (cases t) (auto simp: matches_hex_pattern_def)
      then show ?thesis using t by (simp add: is_valid_hex_color_def)
    qed
  qed
qed

lemma newline_valid: "is_valid_hex_color ''#C0C0C0\<newline>''"
  by (simp add: is_valid_hex_color_def is_hex_digit_def)

lemma newline_not_pattern: "\<not> matches_hex_pattern ''#C0C0C0\<newline>''"
  by (simp add: matches_hex_pattern_def)

lemma newline_convert: "convert_from_hex ''#C0C0C0\<newline>'' = Inr (192, 192, 192)"
  by code_simp

text \<open>
  Claim C3 at the string \<open>#C0C0C0\<close> followed by a newline, for the managed bulb \<open>A\<close>.
  The string is not a \<open>#\<close> followed by six hexadecimal digits, yet \<^verbatim>\<open>is_valid_hex_color\<close>
  accepts it, and \<^verbatim>\<open>set_color_hex\<close> returns the success result and changes the cached
  colour of \<open>A\<close> from (0, 0, 0) to (192, 192, 192).
\<close>

theorem set_color_hex_trailing_newline:
  "\<not> matches_hex_pattern ''#C0C0C0\<newline>''
   \<and> is_valid_hex_color ''#C0C0C0\<newline>''
   \<and> bulb_colors (LightManager_init [device_A, device_B]) = [(0, 0, 0), (0, 0, 0)]
   \<and> fst (set_color_hex (LightManager_init [device_A, device_B]) ''A'' ''#C0C0C0\<newline>'')
        = Inr (Some (Result_success (192, 192, 192) ''A''))
   \<and> bulb_colors (snd (set_color_hex (LightManager_init [device_A, device_B]) ''A''
        ''#C0C0C0\<newline>'')) = [(192, 192, 192), (0, 0, 0)]"
proof -
  have a: "''A'' \<in> set [''A'', ''B'']" by simp
  have e: "set_color_hex (LightManager_init [device_A, device_B]) ''A'' ''#C0C0C0\<newline>''
      = set_color (LightManager_init [device_A, device_B]) ''A'' (192, 192, 192)"
    using newline_valid newline_convert by (simp add: set_color_hex_def)
  have c: "bulb_colors (LightManager_init [device_A, device_B]) = [(0, 0, 0), (0, 0, 0)]"
    by (simp add: LightManager_init_def)
  show ?thesis
    using newline_not_pattern newline_valid
    by (simp add: e set_color_hit[OF lights_inv_init names_AB a] c)
qed

section \<open>Starting a rotation\<close>

lemma first_pos_distinct: "distinct ns \<Longrightarrow> j < length ns \<Longrightarrow> first_pos ns (ns ! j) = j"
proof (induction ns arbitrary: j)
  case Nil
  then show ?case by simp
next
  case (Cons n ns)
  then show ?case by (cases j) auto
qed

lemma rotate_collect_general:
  assumes "lights_inv m" "get_names m = Inr ns" "distinct ns" "j \<le> length ns"
  shows "rotate_collect (drop j (bulb_params m)) m =
     (None, m\<lparr>bulb_colors := take j (bulb_colors m) @ drop j (map color (bulb_threads m)),
              bulb_rotation_colors :=
                bulb_rotation_colors m @ map (\<lambda>t. Some (color t)) (drop j (bulb_threads m))\<rparr>)"
  using assms
proof (induction "length ns - j" arbitrary: j m)
  case 0
  then have j: "j = length ns" by simp
  have l: "length (bulb_params m) = length ns" "length (bulb_colors m) = length ns"
    "length (bulb_threads m) = length ns"
    using get_names_length[OF "0.prems"(2)] "0.prems"(1)
    by (auto simp: lights_inv_def dest: arg_cong[where f=length])
  show ?case by (simp add: j l)
next
  case (Suc d)
  then have j: "j < length ns" by simp
  have l: "length (bulb_params m) = length ns" "length (bulb_colors m) = length ns"
    "length (bulb_threads m) = length ns"
    using get_names_length[OF Suc.prems(2)] Suc.prems(1)
    by (auto simp: lights_inv_def dest: arg_cong[where f=length])
  let ?c = "color (bulb_threads m ! j)"
  let ?m1 = "m\<lparr>bulb_colors := (bulb_colors m)[j := ?c],
               bulb_rotation_colors := bulb_rotation_colors m @ [Some ?c]\<rparr>"
  have dr: "drop j (bulb_params m) = bulb_params m ! j # drop (Suc j) (bulb_params m)"
    using j l by (simp add: Cons_nth_drop_Suc)
  have nm: "getitem (bulb_params m ! j) ''name'' = Inr (ns ! j)"
    using values_of_nth[of "''name''" "bulb_params m" ns j] Suc.prems(2) j l by (simp add: get_names_def)
  have mem: "ns ! j \<in> set ns" using j by simp
  have fp: "first_pos ns (ns ! j) = j" using Suc.prems(3) j by (rule first_pos_distinct)
  have gc: "get_color m (ns ! j) = (Inr (Some ?c), m\<lparr>bulb_colors := (bulb_colors m)[j := ?c]\<rparr>)"
    using get_color_hit[OF Suc.prems(1,2) mem] by (simp add: fp)
  have step: "rotate_collect (drop j (bulb_params m)) m = rotate_collect (drop (Suc j) (bulb_params ?m1)) ?m1"
    by (simp add: dr nm gc)
  have inv1: "lights_inv ?m1" using Suc.prems(1) by (simp add: lights_inv_def)
  have names1: "get_names ?m1 = Inr ns" using Suc.prems(2) by (simp add: get_names_def)
  have d: "d = length ns - Suc j" using Suc.hyps(2) by simp
  have ih: "rotate_collect (drop (Suc j) (bulb_params ?m1)) ?m1 =
     (None, ?m1\<lparr>bulb_colors := take (Suc j) (bulb_colors ?m1) @ drop (Suc j) (map color (bulb_threads ?m1)),
              bulb_rotation_colors :=
                bulb_rotation_colors ?m1 @ map (\<lambda>t. Some (color t)) (drop (Suc j) (bulb_threads ?m1))\<rparr>)"
    using Suc.hyps(1)[OF d inv1 names1 Suc.prems(3)] j by simp
  have t1: "take (Suc j) ((bulb_colors m)[j := ?c]) = take j (bulb_colors m) @ [?c]"
    using j l by (simp add: take_Suc_conv_app_nth)
  have t3: "drop j (bulb_threads m) = bulb_threads m ! j # drop (Suc j) (bulb_threads m)"
    using j l by (simp add: Cons_nth_drop_Suc)
  have t2: "drop j (map color (bulb_threads m)) = ?c # drop (Suc j) (map color (bulb_threads m))"
    by (simp add: drop_map t3)
  show ?case
    unfolding step ih by (simp add: t1 t2 t3)
qed

lemma rotate_result:
  assumes "lights_inv m" "get_names m = Inr ns" "distinct ns"
  shows "LightManager_rotate m speed update_pause clockwise =
     (None, m\<lparr>bulb_colors := map color (bulb_threads m),
              bulb_rotation_colors := map (\<lambda>t. Some (color t)) (bulb_threads m),
              rotation_speed := speed, rotation_update_pause := update_pause,
              rotation_clockwise := clockwise, is_rotation_active := True\<rparr>)"
proof -
  let ?m0 = "m\<lparr>bulb_rotation_colors := []\<rparr>"
  have inv0: "lights_inv ?m0" using assms(1) by (simp add: lights_inv_def)
  have names0: "get_names ?m0 = Inr ns" using assms(2) by (simp add: get_names_def)
  have "rotate_collect (drop 0 (bulb_params ?m0)) ?m0 =
     (None, ?m0\<lparr>bulb_colors := take 0 (bulb_colors ?m0) @ drop 0 (map color (bulb_threads ?m0)),
              bulb_rotation_colors :=
                bulb_rotation_colors ?m0 @ map (\<lambda>t. Some (color t)) (drop 0 (bulb_threads ?m0))\<rparr>)"
    using inv0 names0 assms(3) by (rule rotate_collect_general) simp
  then show ?thesis by (simp add: LightManager_rotate_def)
qed

lemma call_rotate_locals: "snd (snd (call_rotate speed update_pause clockwise (m, l))) = l"
  by (simp add: call_rotate_def split: prod.splits)

lemma rotation_worker_pass_cycle:
  assumes "is_rotation_active m" "cycle l = 0" "rotation_speed m \<noteq> 0"
  shows "cycle (snd (snd (rotation_worker_pass (m, l)))) = rotation_speed m - 1"
  using assms
  by (simp add: rotation_worker_pass_def Let_def split: prod.splits option.splits sum.splits)

lemma distinct_AB: "distinct [''A'', ''B'']"
  by simp

lemma devices_differ: "device_A \<noteq> device_B"
proof
  assume "device_A = device_B"
  then have "device_A ''name'' = device_B ''name''" by simp
  then show False by (simp add: device_A_def device_B_def)
qed

lemma device_names: "getitem device_A ''name'' = Inr ''A''" "getitem device_B ''name'' = Inr ''B''"
  by (simp_all add: getitem_def device_A_def device_B_def)

lemma lights_AB_inv: "lights_inv lights_AB"
  by (simp add: lights_AB_def lights_inv_def LightManager_init_def SmartBulbThread_init_def
        run_start_def)

lemma lights_AB_names: "get_names lights_AB = Inr [''A'', ''B'']"
  by (simp add: lights_AB_def get_names_def LightManager_init_def device_names)

lemma rotation_started_eq:
  "rotation_started =
     (lights_AB
        \<lparr>bulb_colors := [(255, 0, 0), (0, 0, 255)],
         bulb_rotation_colors := [Some (255, 0, 0), Some (0, 0, 255)],
         rotation_speed := 4, rotation_update_pause := 1 / 2,
         rotation_clockwise := True, is_rotation_active := True\<rparr>,
      rotation_worker_start)"
  by (simp add: rotation_started_def call_rotate_def
        rotate_result[OF lights_AB_inv lights_AB_names distinct_AB])
     (simp add: lights_AB_def SmartBulbThread_init_def run_start_def)

lemma first_pass_returns: "fst (rotation_worker_pass rotation_started) = None"
  by (simp add: rotation_started_eq rotation_worker_pass_def rotation_worker_start_def
        lights_AB_def LightManager_init_def SmartBulbThread_init_def run_start_def
        Let_def upt_rec[of 0] upt_rec[of 1] change_color_def
        list_getitem_def list_setitem_def py_index_def interpolate_color_def py_int_def
        device_names devices_differ set_color_def find_bulb_index_def turn_ring_def)

text \<open>
  Claim C5, as the code has it. On a manager as its constructor builds it, with distinct
  bulb names, \<^verbatim>\<open>rotate\<close> returns without raising; it refreshes every cache entry from
  the colour its worker holds and puts these colours into the ring, so that the ring is the
  cache as the call leaves it; it stores the speed, the pause and the direction and sets the
  active flag. It changes no worker: no write to a device and no change request. The cycle
  position, a local variable of the rotation thread, is left as it is.
\<close>

theorem rotate_snapshot:
  assumes "lights_inv m" "get_names m = Inr ns" "distinct ns"
  shows "\<exists>m'. LightManager_rotate m speed update_pause clockwise = (None, m')
           \<and> bulb_colors m' = map color (bulb_threads m)
           \<and> bulb_rotation_colors m' = map Some (bulb_colors m')
           \<and> is_rotation_active m' \<and> rotation_speed m' = speed
           \<and> rotation_update_pause m' = update_pause \<and> rotation_clockwise m' = clockwise
           \<and> bulb_threads m' = bulb_threads m
           \<and> call_rotate speed update_pause clockwise (m, l) = (None, m', l)
           \<and> cycle (snd (snd (call_rotate speed update_pause clockwise (m, l)))) = cycle l"
  by (simp add: rotate_result[OF assms] call_rotate_def comp_def)

theorem rotate_snapshot_witness:
  "lights_inv lights_AB \<and> get_names lights_AB = Inr [''A'', ''B''] \<and> distinct [''A'', ''B'']
   \<and> bulb_colors lights_AB = [(0, 0, 0), (0, 0, 0)]
   \<and> map color (bulb_threads lights_AB) = [(255, 0, 0), (0, 0, 255)]
   \<and> (\<exists>m'. LightManager_rotate lights_AB 4 (1 / 2) True = (None, m')
         \<and> bulb_colors m' = [(255, 0, 0), (0, 0, 255)]
         \<and> bulb_rotation_colors m' = [Some (255, 0, 0), Some (0, 0, 255)]
         \<and> is_rotation_active m' \<and> bulb_threads m' = bulb_threads lights_AB)
   \<and> cycle (snd (snd (call_rotate 4 (1 / 2) True (lights_AB, rotation_worker_start)))) = 0"
proof -
  have c: "bulb_colors lights_AB = [(0, 0, 0), (0, 0, 0)]"
    by (simp add: lights_AB_def LightManager_init_def)
  have t: "map color (bulb_threads lights_AB) = [(255, 0, 0), (0, 0, 255)]"
    by (simp add: lights_AB_def SmartBulbThread_init_def run_start_def)
  have z: "cycle rotation_worker_start = 0" by (simp add: rotation_worker_start_def)
  from rotate_snapshot[OF lights_AB_inv lights_AB_names distinct_AB, of 4 "1 / 2" True rotation_worker_start]
  obtain m' where m: "LightManager_rotate lights_AB 4 (1 / 2) True = (None, m')"
    "bulb_colors m' = map color (bulb_threads lights_AB)"
    "bulb_rotation_colors m' = map Some (bulb_colors m')"
    "is_rotation_active m'" "bulb_threads m' = bulb_threads lights_AB"
    "cycle (snd (snd (call_rotate 4 (1 / 2) True (lights_AB, rotation_worker_start)))) = cycle rotation_worker_start"
    by blast
  have "\<exists>m'. LightManager_rotate lights_AB 4 (1 / 2) True = (None, m')
         \<and> bulb_colors m' = [(255, 0, 0), (0, 0, 255)]
         \<and> bulb_rotation_colors m' = [Some (255, 0, 0), Some (0, 0, 255)]
         \<and> is_rotation_active m' \<and> bulb_threads m' = bulb_threads lights_AB"
    using m t by simp
  then show ?thesis
    using lights_AB_inv lights_AB_names c t m(6) z by simp
qed

text \<open>
  Claim C5 as stated fails on the cycle position. In the run above the first call of
  \<^verbatim>\<open>rotate\<close> and the first pass of the rotation thread return without raising; the pass
  leaves the cycle position at 3, and a second call of \<^verbatim>\<open>rotate\<close> leaves it at 3.
\<close>

theorem rotate_keeps_cycle_counterexample:
  "fst (call_rotate 4 (1 / 2) True (lights_AB, rotation_worker_start)) = None
   \<and> cycle rotation_worker_start = 0
   \<and> fst (rotation_worker_pass rotation_started) = None
   \<and> cycle (snd rotation_after_pass) = 3
   \<and> cycle (snd (snd (call_rotate 4 (1 / 2) True rotation_after_pass))) = 3"
proof -
  have 1: "fst (call_rotate 4 (1 / 2) True (lights_AB, rotation_worker_start)) = None"
    by (simp add: call_rotate_def rotate_result[OF lights_AB_inv lights_AB_names distinct_AB])
  have 2: "cycle rotation_worker_start = 0" by (simp add: rotation_worker_start_def)
  have 3: "cycle (snd rotation_after_pass) = 3"
    unfolding rotation_after_pass_def rotation_started_eq
    by (subst rotation_worker_pass_cycle) (simp_all add: rotation_worker_start_def)
  obtain m l where s: "rotation_after_pass = (m, l)" by (cases rotation_after_pass)
  have 4: "cycle (snd (snd (call_rotate 4 (1 / 2) True rotation_after_pass))) = 3"
    using 3 by (simp add: s call_rotate_locals)
  show ?thesis using 1 2 first_pass_returns 3 4 by simp
qed

end
